theory Spec2Isabelle
  imports Complex_Main "HOL-Library.AList" "HOL-Library.Char_ord" "HOL-Library.List_Lexorder"
    "HOL-Library.Log_Nat"
begin

section \<open>InsightLens: the CSV analysis engine (class DataAnalyzer)\<close>

text \<open>
  The development embeds the class \<open>DataAnalyzer\<close> of \<open>src/src/types/index.ts\<close>
  (lines 161 to 538). Text is a list of characters; a character stands for one UTF-16 code
  unit below 256, which covers every character the analyzer itself inspects (comma, double
  quote, newline, white space, digits, signs and the ASCII letters of the column-name
  patterns).
\<close>

subsection \<open>Strings: the JavaScript primitives the parser uses\<close>

definition dq :: char where
  "dq = CHR 0x22"

definition nl :: char where
  "nl = CHR 0x0A"

text \<open>White space and line terminators removed by \<open>String.prototype.trim\<close>, among the
  code units below 256: TAB, LF, VT, FF, CR, SPACE and NO-BREAK SPACE.\<close>

definition isWhiteSpace :: "char \<Rightarrow> bool" where
  "isWhiteSpace c = (c \<in> set [CHR 0x09, CHR 0x0A, CHR 0x0B, CHR 0x0C, CHR 0x0D, CHR 0x20, CHR 0xA0])"

definition trimStart :: "string \<Rightarrow> string" where
  "trimStart s = dropWhile isWhiteSpace s"

definition js_trim :: "string \<Rightarrow> string" where
  "js_trim s = rev (dropWhile isWhiteSpace (rev (dropWhile isWhiteSpace s)))"

text \<open>\<open>s.split(sep)\<close> for a one-character separator: the empty string gives one empty
  piece, and a trailing separator gives a trailing empty piece.\<close>

fun js_split :: "char \<Rightarrow> string \<Rightarrow> string list" where
  "js_split sep [] = [[]]"
| "js_split sep (c # cs) =
     (if c = sep then [] # js_split sep cs
      else (case js_split sep cs of
              [] \<Rightarrow> [[c]]
            | p # ps \<Rightarrow> (c # p) # ps))"

text \<open>\<open>s.replace(/"/g, '')\<close>.\<close>

definition strip_quotes :: "string \<Rightarrow> string" where
  "strip_quotes s = filter (\<lambda>c. c \<noteq> dq) s"

subsection \<open>Rows: plain JavaScript objects keyed by column name\<close>

text \<open>
  A row is the object \<open>{}\<close> filled by \<open>row[col] = ...\<close>: an association list of its own
  properties, in insertion order. An assignment to an existing key keeps the key's place and
  replaces the value. One key is special in JavaScript: an assignment of a string to
  \<open>__proto__\<close> on a plain object is ignored, and reading \<open>__proto__\<close> yields
  \<open>Object.prototype\<close>, which every use in this class converts to the text
  \<open>[object Object]\<close>. Reading a key that was never written yields \<open>undefined\<close>, which
  those uses convert to the text \<open>undefined\<close>; the analyzer only reads keys that are
  column names, so that branch is taken for no key but \<open>__proto__\<close>.
\<close>

type_synonym row = "(string \<times> string) list"

definition row_set :: "row \<Rightarrow> string \<Rightarrow> string \<Rightarrow> row" where
  "row_set r k v = (if k = ''__proto__'' then r else AList.update k v r)"

definition row_get :: "row \<Rightarrow> string \<Rightarrow> string" where
  "row_get r k =
     (case map_of r k of
        Some v \<Rightarrow> v
      | None \<Rightarrow> if k = ''__proto__'' then ''[object Object]'' else ''undefined'')"

subsection \<open>The tokenizer: parseCSV and parseCSVLine\<close>

datatype error = MalformedInput | RangeError

record analyzer =
  rawData :: string
  columns :: "string list"
  data :: "row list"

text \<open>The loop of \<open>parseCSVLine\<close> over the characters of the line, with its three
  variables \<open>result\<close>, \<open>current\<close> and \<open>inQuotes\<close>.\<close>

fun parseCSVLine_loop :: "string \<Rightarrow> string list \<Rightarrow> string \<Rightarrow> bool \<Rightarrow> string list" where
  "parseCSVLine_loop [] result current inQuotes =
     result @ [strip_quotes (js_trim current)]"
| "parseCSVLine_loop (ch # rest) result current inQuotes =
     (if ch = dq then parseCSVLine_loop rest result current (\<not> inQuotes)
      else if ch = CHR '','' \<and> \<not> inQuotes then
        parseCSVLine_loop rest (result @ [strip_quotes (js_trim current)]) [] inQuotes
      else parseCSVLine_loop rest result (current @ [ch]) inQuotes)"

definition parseCSVLine :: "string \<Rightarrow> string list" where
  "parseCSVLine line = parseCSVLine_loop line [] [] False"

text \<open>\<open>values[index] || ''\<close>: an index past the end reads \<open>undefined\<close>, which is
  replaced by the empty string (as the empty string itself is).\<close>

definition cell :: "string list \<Rightarrow> nat \<Rightarrow> string" where
  "cell values index = (if index < length values then values ! index else [])"

text \<open>\<open>this.columns.forEach((col, index) => { row[col] = values[index] || '' })\<close>.\<close>

fun fill_row :: "string list \<Rightarrow> nat \<Rightarrow> string list \<Rightarrow> row \<Rightarrow> row" where
  "fill_row values index [] r = r"
| "fill_row values index (col # cols) r =
     fill_row values (Suc index) cols (row_set r col (cell values index))"

definition make_row :: "string list \<Rightarrow> string list \<Rightarrow> row" where
  "make_row cols values = fill_row values 0 cols []"

definition parseCSV :: "string \<Rightarrow> error + analyzer" where
  "parseCSV raw =
     (let lines = js_split nl (js_trim raw) in
      if length lines < 2 then Inl MalformedInput
      else
        let cols = map (\<lambda>col. strip_quotes (js_trim col)) (js_split (CHR '','') (hd lines)) in
        Inr \<lparr> rawData = raw,
              columns = cols,
              data = map (\<lambda>line. make_row cols (parseCSVLine line)) (tl lines) \<rparr>)"

subsection \<open>Numbers\<close>

text \<open>
  A JavaScript number is an IEEE-754 double: a finite value, one of the two infinities, or
  NaN. A finite value is kept as the rational it denotes. Every operation computes the
  exact result and rounds it to the nearest double, a tie to the double with the even
  significand (\<open>round_double\<close>): the doubles of the binade \<open>[2^e, 2^(e+1))\<close> are the
  multiples of \<open>2^(e-52)\<close>, and below \<open>2^(-1022)\<close> the multiples of \<open>2^(-1074)\<close>. A result
  that rounds to \<open>2^1024\<close> or beyond is an infinity. The sign of a zero is not kept.
\<close>

definition pow2 :: "int \<Rightarrow> rat" where
  "pow2 k = (if 0 \<le> k then 2 ^ nat k else 1 / 2 ^ nat (- k))"

text \<open>The exponent \<open>e\<close> with \<open>2^e \<le> r < 2^(e+1)\<close>, for a positive \<open>r\<close>.\<close>

definition binade :: "rat \<Rightarrow> int" where
  "binade r = (if 1 \<le> r then bitlen \<lfloor>r\<rfloor> - 1 else - bitlen (- \<lfloor>- (1 / r)\<rfloor> - 1))"

definition round_half_even :: "rat \<Rightarrow> int" where
  "round_half_even x =
     (let f = \<lfloor>x\<rfloor>; d = x - of_int f
      in if d < 1 / 2 then f else if 1 / 2 < d then f + 1 else if even f then f else f + 1)"

definition round_double :: "rat \<Rightarrow> rat" where
  "round_double r =
     (if r = 0 then 0
      else (let q = pow2 (max (binade \<bar>r\<bar>) (- 1022) - 52)
            in of_int (round_half_even (r / q)) * q))"

datatype jsnum = Num rat | PInf | NInf | NaN

text \<open>The number that an exact result becomes.\<close>

definition mk_num :: "rat \<Rightarrow> jsnum" where
  "mk_num r =
     (let v = round_double r
      in if 2 ^ 1024 \<le> v then PInf
         else if v \<le> - (2 ^ 1024) then NInf
         else Num v)"

definition js_isNaN :: "jsnum \<Rightarrow> bool" where
  "js_isNaN x = (x = NaN)"

text \<open>The sign of a number that is not NaN: 1, -1, or 0 for zero.\<close>

fun js_sign :: "jsnum \<Rightarrow> int" where
  "js_sign (Num r) = (if 0 < r then 1 else if r < 0 then - 1 else 0)"
| "js_sign PInf = 1"
| "js_sign NInf = - 1"
| "js_sign NaN = 0"

definition inf_of_sign :: "int \<Rightarrow> jsnum" where
  "inf_of_sign s = (if s = 0 then NaN else if 0 < s then PInf else NInf)"

fun js_neg :: "jsnum \<Rightarrow> jsnum" where
  "js_neg (Num r) = Num (- r)"
| "js_neg PInf = NInf"
| "js_neg NInf = PInf"
| "js_neg NaN = NaN"

fun js_add :: "jsnum \<Rightarrow> jsnum \<Rightarrow> jsnum" where
  "js_add NaN y = NaN"
| "js_add x NaN = NaN"
| "js_add (Num a) (Num b) = mk_num (a + b)"
| "js_add PInf NInf = NaN"
| "js_add NInf PInf = NaN"
| "js_add PInf y = PInf"
| "js_add NInf y = NInf"
| "js_add (Num a) y = y"

definition js_sub :: "jsnum \<Rightarrow> jsnum \<Rightarrow> jsnum" where
  "js_sub x y = js_add x (js_neg y)"

fun js_mul :: "jsnum \<Rightarrow> jsnum \<Rightarrow> jsnum" where
  "js_mul NaN y = NaN"
| "js_mul x NaN = NaN"
| "js_mul (Num a) (Num b) = mk_num (a * b)"
| "js_mul x y = inf_of_sign (js_sign x * js_sign y)"

text \<open>Division: a finite value over an infinity is zero, an infinity over an infinity and
  zero over zero are NaN, and a nonzero value over zero is the infinity of its sign (the
  divisors this class produces are never negative zero).\<close>

fun js_div :: "jsnum \<Rightarrow> jsnum \<Rightarrow> jsnum" where
  "js_div NaN y = NaN"
| "js_div x NaN = NaN"
| "js_div (Num a) (Num b) = (if b = 0 then inf_of_sign (js_sign (Num a)) else mk_num (a / b))"
| "js_div (Num a) y = Num 0"
| "js_div x (Num b) = inf_of_sign (js_sign x * (if b < 0 then - 1 else 1))"
| "js_div x y = NaN"

text \<open>\<open>x < y\<close> and \<open>x > y\<close>: false as soon as one side is NaN.\<close>

fun js_lt :: "jsnum \<Rightarrow> jsnum \<Rightarrow> bool" where
  "js_lt NaN y = False"
| "js_lt x NaN = False"
| "js_lt (Num a) (Num b) = (a < b)"
| "js_lt x PInf = (x \<noteq> PInf)"
| "js_lt NInf y = (y \<noteq> NInf)"
| "js_lt x y = False"

definition js_gt :: "jsnum \<Rightarrow> jsnum \<Rightarrow> bool" where
  "js_gt x y = js_lt y x"

fun Math_floor :: "jsnum \<Rightarrow> jsnum" where
  "Math_floor (Num r) = Num (of_int \<lfloor>r\<rfloor>)"
| "Math_floor x = x"

text \<open>\<open>Math.round\<close> rounds to the nearest integer, a tie towards plus infinity.\<close>

fun Math_round :: "jsnum \<Rightarrow> jsnum" where
  "Math_round (Num r) = Num (of_int \<lfloor>r + 1 / 2\<rfloor>)"
| "Math_round x = x"

definition Math_min2 :: "jsnum \<Rightarrow> jsnum \<Rightarrow> jsnum" where
  "Math_min2 x y = (if x = NaN \<or> y = NaN then NaN else if js_lt y x then y else x)"

definition Math_max2 :: "jsnum \<Rightarrow> jsnum \<Rightarrow> jsnum" where
  "Math_max2 x y = (if x = NaN \<or> y = NaN then NaN else if js_lt x y then y else x)"

text \<open>\<open>Math.min(...values)\<close> and \<open>Math.max(...values)\<close>: of no argument they are
  plus and minus infinity. The source passes the values as the arguments of one call. An
  engine bounds the number of arguments of a call, at a number that the standard leaves
  open (some hundred thousand in the current engines), and throws a RangeError past it;
  the model has no bound, so what it says of \<open>createHistogramBins\<close> and of the charts
  holds for revenue columns with fewer parsed values than the engine's bound.\<close>

definition Math_min :: "jsnum list \<Rightarrow> jsnum" where
  "Math_min values = foldl Math_min2 PInf values"

definition Math_max :: "jsnum list \<Rightarrow> jsnum" where
  "Math_max values = foldl Math_max2 NInf values"

definition of_count :: "nat \<Rightarrow> jsnum" where
  "of_count n = Num (of_nat n)"

subsection \<open>parseFloat and isFinite on text\<close>

definition isDigit :: "char \<Rightarrow> bool" where
  "isDigit c = (c \<in> set ''0123456789'')"

definition digit_val :: "char \<Rightarrow> nat" where
  "digit_val c = of_char c - 48"

definition digits_val :: "string \<Rightarrow> int" where
  "digits_val ds = foldl (\<lambda>acc c. 10 * acc + int (digit_val c)) 0 ds"

definition pow10 :: "int \<Rightarrow> rat" where
  "pow10 e = (if 0 \<le> e then 10 ^ nat e else 1 / 10 ^ nat (- e))"

text \<open>An exponent part \<open>e\<close>, optional sign, digits. Without a digit there is no exponent
  part and nothing is consumed.\<close>

definition exponent_part :: "string \<Rightarrow> int \<times> string" where
  "exponent_part s =
     (case s of
        [] \<Rightarrow> (0, s)
      | c # t \<Rightarrow>
          if c = CHR ''e'' \<or> c = CHR ''E'' then
            (let (sg, u) = (case t of
                              [] \<Rightarrow> (1, t)
                            | d # t' \<Rightarrow> if d = CHR ''+'' then (1, t')
                                       else if d = CHR ''-'' then (- 1, t')
                                       else (1, t));
                 ds = takeWhile isDigit u
             in if ds = [] then (0, s)
                else (sg * digits_val ds, dropWhile isDigit u))
          else (0, s))"

text \<open>The longest prefix that is an unsigned decimal literal (\<open>12\<close>, \<open>12.\<close>, \<open>12.5\<close>,
  \<open>.5\<close>, each with an optional exponent part): its value and the rest of the text.\<close>

definition unsigned_decimal :: "string \<Rightarrow> (rat \<times> string) option" where
  "unsigned_decimal s =
     (let ip = takeWhile isDigit s;
          r1 = dropWhile isDigit s;
          (fp, r2) = (case r1 of
                        [] \<Rightarrow> ([], r1)
                      | c # t \<Rightarrow> if c = CHR ''.'' then (takeWhile isDigit t, dropWhile isDigit t)
                                 else ([], r1))
      in if ip = [] \<and> fp = [] then None
         else (let (e, r3) = exponent_part r2
               in Some (of_int (digits_val (ip @ fp)) / 10 ^ length fp * pow10 e, r3)))"

definition starts_with :: "string \<Rightarrow> string \<Rightarrow> bool" where
  "starts_with p s = (take (length p) s = p)"

text \<open>The longest prefix that is a signed decimal literal of the grammar of
  \<open>StrDecimalLiteral\<close>, \<open>Infinity\<close> included.\<close>

definition str_decimal_literal :: "string \<Rightarrow> (jsnum \<times> string) option" where
  "str_decimal_literal s =
     (let (sg, t) = (case s of
                       [] \<Rightarrow> (1, s)
                     | c # s' \<Rightarrow> if c = CHR ''+'' then (1, s')
                                else if c = CHR ''-'' then (- 1, s')
                                else (1, s))
      in if starts_with ''Infinity'' t then Some (inf_of_sign sg, drop 8 t)
         else (case unsigned_decimal t of
                 None \<Rightarrow> None
               | Some (r, rest) \<Rightarrow> Some (mk_num (of_int sg * r), rest)))"

definition parseFloat :: "string \<Rightarrow> jsnum" where
  "parseFloat s =
     (case str_decimal_literal (trimStart s) of
        None \<Rightarrow> NaN
      | Some (v, rest) \<Rightarrow> v)"

text \<open>Digits of the literals \<open>0x\<close>, \<open>0o\<close> and \<open>0b\<close>.\<close>

definition radix_digit :: "char \<Rightarrow> nat option" where
  "radix_digit c =
     (if isDigit c then Some (digit_val c)
      else if c \<in> set ''abcdef'' then Some (of_char c - 87)
      else if c \<in> set ''ABCDEF'' then Some (of_char c - 55)
      else None)"

definition radix_literal :: "nat \<Rightarrow> string \<Rightarrow> jsnum" where
  "radix_literal b ds =
     (if ds \<noteq> [] \<and> list_all (\<lambda>c. case radix_digit c of None \<Rightarrow> False | Some d \<Rightarrow> d < b) ds
      then mk_num (of_int (foldl (\<lambda>acc c. int b * acc + int (the (radix_digit c))) 0 ds))
      else NaN)"

text \<open>\<open>ToNumber\<close> of a text: white space is trimmed, the empty text is 0, and the whole
  rest has to be one numeric literal.\<close>

definition ToNumber :: "string \<Rightarrow> jsnum" where
  "ToNumber s =
     (let t = js_trim s in
      if t = [] then Num 0
      else if starts_with ''0x'' t \<or> starts_with ''0X'' t then radix_literal 16 (drop 2 t)
      else if starts_with ''0o'' t \<or> starts_with ''0O'' t then radix_literal 8 (drop 2 t)
      else if starts_with ''0b'' t \<or> starts_with ''0B'' t then radix_literal 2 (drop 2 t)
      else (case str_decimal_literal t of
              None \<Rightarrow> NaN
            | Some (v, rest) \<Rightarrow> if rest = [] then v else NaN))"

definition js_isFinite :: "string \<Rightarrow> bool" where
  "js_isFinite s = (case ToNumber s of Num r \<Rightarrow> True | _ \<Rightarrow> False)"

subsection \<open>Dates\<close>

text \<open>
  \<open>Date.parse\<close> accepts the ISO format of the standard and, beyond it, whatever the
  engine chooses to accept. The analyzer is therefore modelled over an arbitrary parser
  \<open>dp\<close>, which returns the time value in milliseconds since the epoch, or \<open>None\<close> where
  \<open>Date.parse\<close> returns NaN. \<open>new Date(text)\<close> parses the same way.
\<close>

type_synonym date_parser = "string \<Rightarrow> int option"

text \<open>The civil date (year, month, day) of a day number counted from 1970-01-01, in the
  proleptic Gregorian calendar.\<close>

definition civil_from_days :: "int \<Rightarrow> int \<times> int \<times> int" where
  "civil_from_days z0 =
     (let z = z0 + 719468;
          era = z div 146097;
          doe = z - era * 146097;
          yoe = (doe - doe div 1460 + doe div 36524 - doe div 146096) div 365;
          doy = doe - (365 * yoe + yoe div 4 - yoe div 100);
          mp = (5 * doy + 2) div 153;
          d = doy - (153 * mp + 2) div 5 + 1;
          m = (if mp < 10 then mp + 3 else mp - 9);
          y = yoe + era * 400 + (if m \<le> 2 then 1 else 0)
      in (y, m, d))"

definition days_from_civil :: "int \<Rightarrow> int \<Rightarrow> int \<Rightarrow> int" where
  "days_from_civil y0 m d =
     (let y = (if m \<le> 2 then y0 - 1 else y0);
          era = y div 400;
          yoe = y - era * 400;
          doy = (153 * (if 2 < m then m - 3 else m + 9) + 2) div 5 + d - 1;
          doe = yoe * 365 + yoe div 4 - yoe div 100 + doy
      in era * 146097 + doe - 719468)"

definition digit_char :: "nat \<Rightarrow> char" where
  "digit_char n = char_of (48 + n mod 10)"

text \<open>The last \<open>w\<close> decimal digits of \<open>n\<close>, padded with zeros.\<close>

definition pad_digits :: "nat \<Rightarrow> nat \<Rightarrow> string" where
  "pad_digits w n = map (\<lambda>i. digit_char (n div 10 ^ i)) (rev [0..<w])"

text \<open>The part of \<open>toISOString()\<close> before the \<open>T\<close>: four digits for the years 0 to 9999, a
  sign and six digits for the others.\<close>

definition iso_day :: "int \<Rightarrow> string" where
  "iso_day t =
     (let (y, m, d) = civil_from_days (t div 86400000) in
      (if 0 \<le> y \<and> y \<le> 9999 then pad_digits 4 (nat y)
       else (if y < 0 then ''-'' else ''+'') @ pad_digits 6 (nat \<bar>y\<bar>))
      @ ''-'' @ pad_digits 2 (nat m) @ ''-'' @ pad_digits 2 (nat d))"

text \<open>\<open>new Date(text).toISOString().split('T')[0]\<close>: \<open>toISOString\<close> throws a RangeError
  on an invalid date. A time value is valid up to 8.64e15 milliseconds either side of the
  epoch.\<close>

definition day_key :: "date_parser \<Rightarrow> string \<Rightarrow> error + string" where
  "day_key dp text =
     (case dp text of
        None \<Rightarrow> Inl RangeError
      | Some t \<Rightarrow> if 8640000000000000 < \<bar>t\<bar> then Inl RangeError else Inr (iso_day t))"

text \<open>
  One concrete parser, used for the worked inputs: the date-only form \<open>YYYY-MM-DD\<close> of the
  standard's format with a legal month and day, read as UTC midnight. Every other text is
  NaN here; that includes the empty text, which is NaN in every engine.
\<close>

definition days_in_month :: "int \<Rightarrow> int \<Rightarrow> int" where
  "days_in_month y m =
     (if m = 2 then (if y mod 4 = 0 \<and> (y mod 100 \<noteq> 0 \<or> y mod 400 = 0) then 29 else 28)
      else if m \<in> set [4, 6, 9, 11] then 30 else 31)"

definition iso_date_parse :: date_parser where
  "iso_date_parse s =
     (if length s = 10 \<and> s ! 4 = CHR ''-'' \<and> s ! 7 = CHR ''-''
         \<and> list_all isDigit (take 4 s) \<and> list_all isDigit (take 2 (drop 5 s))
         \<and> list_all isDigit (drop 8 s)
      then (let y = digits_val (take 4 s);
                m = digits_val (take 2 (drop 5 s));
                d = digits_val (drop 8 s)
            in if 1 \<le> m \<and> m \<le> 12 \<and> 1 \<le> d \<and> d \<le> days_in_month y m
               then Some (days_from_civil y m d * 86400000)
               else None)
      else None)"

subsection \<open>The column classifier: detectColumnType\<close>

datatype column_type = Numeric | Categorical | Datetime

datatype business_type = Revenue | Customer | Date | Category | Quantity

record ColumnInfo =
  name :: string
  type :: column_type
  uniqueValues :: nat
  nullCount :: nat
  isBusinessRelevant :: bool
  businessType :: "business_type option"

text \<open>\<open>toLowerCase\<close> on code units below 256: the ASCII capitals and the capitals of
  Latin-1.\<close>

definition lower_char :: "char \<Rightarrow> char" where
  "lower_char c =
     (let n = (of_char c :: nat) in
      if (65 \<le> n \<and> n \<le> 90) \<or> (192 \<le> n \<and> n \<le> 222 \<and> n \<noteq> 215) then char_of (n + 32) else c)"

definition toLowerCase :: "string \<Rightarrow> string" where
  "toLowerCase s = map lower_char s"

text \<open>The regular expressions \<open>/^(p1|p2|...)/\<close>: the text starts with one of the words.\<close>

definition test_prefix :: "string list \<Rightarrow> string \<Rightarrow> bool" where
  "test_prefix ps s = list_ex (\<lambda>p. starts_with p s) ps"

definition relevant_words :: "string list" where
  "relevant_words = [''amount'', ''price'', ''cost'', ''revenue'', ''sales'', ''total'',
     ''customer'', ''client'', ''user'', ''id'', ''date'', ''time'', ''created'', ''updated'']"

definition revenue_words :: "string list" where
  "revenue_words = [''amount'', ''price'', ''cost'', ''revenue'', ''sales'', ''total'', ''value'']"

definition customer_words :: "string list" where
  "customer_words = [''customer'', ''client'', ''user'', ''id'']"

definition date_words :: "string list" where
  "date_words = [''date'', ''time'', ''created'', ''updated'']"

definition is_numeric_value :: "string \<Rightarrow> bool" where
  "is_numeric_value v = (\<not> js_isNaN (parseFloat v) \<and> js_isFinite v)"

definition is_date_value :: "date_parser \<Rightarrow> string \<Rightarrow> bool" where
  "is_date_value dp v = (dp v \<noteq> None)"

definition detectColumnType :: "date_parser \<Rightarrow> string \<Rightarrow> string list \<Rightarrow> ColumnInfo" where
  "detectColumnType dp columnName values =
     (let nonEmptyValues = filter (\<lambda>v. v \<noteq> []) values;
          uniqueValues = length (remdups nonEmptyValues);
          nullCount = length values - length nonEmptyValues;
          numericValues = filter is_numeric_value nonEmptyValues;
          isNumeric = js_gt (of_count (length numericValues))
                            (js_mul (of_count (length nonEmptyValues)) (mk_num (8 / 10)));
          dateValues = filter (is_date_value dp) nonEmptyValues;
          isDateTime = js_gt (of_count (length dateValues))
                             (js_mul (of_count (length nonEmptyValues)) (mk_num (8 / 10)));
          lowerName = toLowerCase columnName;
          isBusinessRelevant = test_prefix relevant_words lowerName;
          businessType =
            (if test_prefix revenue_words lowerName then Some Revenue
             else if test_prefix customer_words lowerName then Some Customer
             else if test_prefix date_words lowerName then Some Date
             else if \<not> isNumeric \<and> js_lt (of_count uniqueValues)
                        (js_mul (of_count (length nonEmptyValues)) (mk_num (5 / 10)))
               then Some Category
             else if isNumeric \<and> \<not> test_prefix revenue_words lowerName then Some Quantity
             else None)
      in \<lparr> name = columnName,
           type = (if isNumeric then Numeric else if isDateTime then Datetime else Categorical),
           uniqueValues = uniqueValues,
           nullCount = nullCount,
           isBusinessRelevant = isBusinessRelevant,
           businessType = businessType \<rparr>)"

subsection \<open>The overview: getDataOverview\<close>

record DataOverview =
  totalRows :: nat
  totalColumns :: nat
  columns :: "ColumnInfo list"
  missingValues :: nat
  duplicateRows :: int
  memoryUsage :: nat

text \<open>\<open>this.data.map(row => row[col])\<close>.\<close>

definition column_values :: "analyzer \<Rightarrow> string \<Rightarrow> string list" where
  "column_values a col = map (\<lambda>r. row_get r col) (data a)"

text \<open>
  \<open>JSON.stringify(row)\<close> writes the own properties of the row with their values; all rows
  of a table have the same keys in the same order, so two rows have the same serialisation
  exactly when they are the same association list, and the size of the set of
  serialisations is the number of distinct rows. \<open>memoryUsage\<close> holds the number that the
  source prints before \<open>KB\<close>, \<open>Math.round(rawData.length / 1024)\<close>.
\<close>

definition getDataOverview :: "date_parser \<Rightarrow> analyzer \<Rightarrow> DataOverview" where
  "getDataOverview dp a =
     (let cols = map (\<lambda>col. detectColumnType dp col (column_values a col)) (analyzer.columns a);
          totalMissingValues = foldl (\<lambda>sum col. sum + nullCount col) 0 cols;
          dups = int (length (data a)) - int (length (remdups (data a)))
      in \<lparr> totalRows = length (data a),
           totalColumns = length (analyzer.columns a),
           columns = cols,
           missingValues = totalMissingValues,
           duplicateRows = dups,
           memoryUsage = (2 * length (rawData a) + 1024) div 2048 \<rparr>)"

subsection \<open>The metrics: generateMetrics\<close>

text \<open>A metric as \<open>generateMetrics\<close> builds it: the optional field \<open>change\<close> of the
  interface is never set. Every value it stores is a number.\<close>

datatype trend = Up | Down | Neutral

datatype display_format = Currency | Percentage | Number

record Metric =
  label :: string
  "value" :: jsnum
  trend :: "trend option"
  format :: "display_format option"

text \<open>The filter shared by \<open>generateMetrics\<close> and \<open>generateCharts\<close>:
  \<open>col.businessType === 'revenue' || col.type === 'numeric' && /^(amount|...)/.test(...)\<close>.\<close>

definition is_revenue_column :: "ColumnInfo \<Rightarrow> bool" where
  "is_revenue_column col =
     (businessType col = Some Revenue
      \<or> (type col = Numeric \<and> test_prefix revenue_words (toLowerCase (name col))))"

text \<open>\<open>this.data.map(row => parseFloat(row[name])).filter(v => !isNaN(v))\<close>.\<close>

definition parsed_values :: "analyzer \<Rightarrow> string \<Rightarrow> jsnum list" where
  "parsed_values a col = filter (\<lambda>v. \<not> js_isNaN v) (map parseFloat (column_values a col))"

text \<open>\<open>values.reduce((sum, val) => sum + val, 0)\<close>.\<close>

definition sum_values :: "jsnum list \<Rightarrow> jsnum" where
  "sum_values values = foldl (\<lambda>sum val. js_add sum val) (Num 0) values"

text \<open>The completeness percentage of \<open>generateMetrics\<close> and \<open>generateInsights\<close>.\<close>

definition completeness :: "analyzer \<Rightarrow> DataOverview \<Rightarrow> jsnum" where
  "completeness a overview =
     (let cells = js_mul (of_count (length (data a))) (of_count (length (analyzer.columns a)))
      in Math_round (js_mul (js_div (js_sub cells (of_count (missingValues overview))) cells)
                            (Num 100)))"

definition generateMetrics :: "date_parser \<Rightarrow> analyzer \<Rightarrow> Metric list" where
  "generateMetrics dp a =
     (let overview = getDataOverview dp a;
          basic = [\<lparr> label = ''Total Records'', value = of_count (length (data a)),
                      trend = None, format = Some Number \<rparr>,
                   \<lparr> label = ''Data Columns'', value = of_count (length (analyzer.columns a)),
                      trend = None, format = Some Number \<rparr>];
          revenueColumns = filter is_revenue_column (columns overview);
          revenue =
            (case revenueColumns of
               [] \<Rightarrow> []
             | revenueCol # others \<Rightarrow>
                 (let values = parsed_values a (name revenueCol);
                      totalRevenue = sum_values values;
                      avgRevenue = (if 0 < length values
                                    then js_div totalRevenue (of_count (length values))
                                    else Num 0)
                  in [\<lparr> label = ''Total Revenue'', value = totalRevenue,
                         trend = Some Up, format = Some Currency \<rparr>,
                      \<lparr> label = ''Average Order Value'', value = avgRevenue,
                         trend = None, format = Some Currency \<rparr>]));
          quality =
            (if 0 < missingValues overview then
               [\<lparr> label = ''Data Completeness'', value = completeness a overview,
                   trend = Some (if js_gt (of_count (missingValues overview))
                                          (js_mul (of_count (length (data a))) (mk_num (1 / 10)))
                                 then Down else Neutral),
                   format = Some Percentage \<rparr>]
             else [])
      in basic @ revenue @ quality)"

subsection \<open>The charts: createHistogramBins and generateCharts\<close>

datatype chart_type = Bar | Line | Doughnut

text \<open>
  A chart keeps what the analysis computes: the type, the title, the labels, and of the one
  dataset of \<open>data.datasets\<close> its label (\<open>series\<close>) and its data (\<open>points\<close>); the colours
  and drawing options are constants of the source. A label is a text; the labels of the
  histogram, which the source prints as \<open>start.toFixed(0)-end.toFixed(0)\<close>, are kept as the
  two bounds.
\<close>

datatype chart_label = Text string | Range jsnum jsnum

record ChartData =
  ctype :: chart_type
  title :: string
  labels :: "chart_label list"
  series :: "string option"
  points :: "jsnum list"

text \<open>
  \<open>bins[binIndex]++\<close>. An index that is an integer inside the array increments that
  element. Any other number names a property beside the elements (for NaN the property
  \<open>NaN\<close>) and leaves every element as it is. An integer index at or past the length would
  extend the array; \<open>Math.min(..., binCount - 1)\<close> excludes it.
\<close>

definition increment_bin :: "nat list \<Rightarrow> jsnum \<Rightarrow> nat list" where
  "increment_bin bins binIndex =
     (case binIndex of
        Num r \<Rightarrow>
          if 0 \<le> r \<and> r = of_int \<lfloor>r\<rfloor> \<and> nat \<lfloor>r\<rfloor> < length bins
          then bins[nat \<lfloor>r\<rfloor> := bins ! nat \<lfloor>r\<rfloor> + 1]
          else bins
      | _ \<Rightarrow> bins)"

definition createHistogramBins :: "jsnum list \<Rightarrow> nat \<Rightarrow> chart_label list \<times> nat list" where
  "createHistogramBins values binCount =
     (let min = Math_min values;
          max = Math_max values;
          binSize = js_div (js_sub max min) (of_count binCount);
          bins = replicate binCount 0;
          labels = map (\<lambda>i. Range (js_add min (js_mul (of_count i) binSize))
                                   (js_add min (js_mul (of_count (i + 1)) binSize)))
                       [0..<binCount];
          bins' = foldl (\<lambda>bins value.
                     increment_bin bins
                       (Math_min2 (Math_floor (js_div (js_sub value min) binSize))
                                  (js_sub (of_count binCount) (Num 1))))
                   bins values
      in (labels, bins'))"

text \<open>
  The counts of the category chart, \<open>categoryCounts[value] = (categoryCounts[value] || 0) + 1\<close>,
  as an association list in insertion order. (A cell that spells the name of a property
  every object inherits, such as \<open>constructor\<close>, is counted here like any other cell; the
  source starts its count from the inherited property.)
\<close>

fun count_value :: "(string \<times> nat) list \<Rightarrow> string \<Rightarrow> (string \<times> nat) list" where
  "count_value [] v = [(v, 1)]"
| "count_value ((k, n) # kns) v =
     (if k = v then (k, n + 1) # kns else (k, n) # count_value kns v)"

text \<open>\<open>Object.entries\<close> lists the keys that are array indices first, in ascending numeric
  order, then the other keys in insertion order. An array index is the canonical decimal
  text of a number below \<open>2^32 - 1\<close>.\<close>

definition is_array_index :: "string \<Rightarrow> bool" where
  "is_array_index k =
     (k \<noteq> [] \<and> list_all isDigit k \<and> (k = ''0'' \<or> hd k \<noteq> CHR ''0'')
      \<and> length k \<le> 10 \<and> digits_val k < 4294967295)"

definition Object_entries :: "(string \<times> 'a) list \<Rightarrow> (string \<times> 'a) list" where
  "Object_entries kvs =
     sort_key (\<lambda>kv. digits_val (fst kv)) (filter (\<lambda>kv. is_array_index (fst kv)) kvs)
     @ filter (\<lambda>kv. \<not> is_array_index (fst kv)) kvs"

text \<open>\<open>timeData[date] || 0\<close>: a missing entry, zero and NaN all read as 0.\<close>

definition or_zero :: "jsnum option \<Rightarrow> jsnum" where
  "or_zero x = (case x of None \<Rightarrow> Num 0 | Some v \<Rightarrow> if v = NaN then Num 0 else v)"

text \<open>The loop \<open>this.data.forEach(row => ...)\<close> of the time series. The date of the row is
  converted first; where \<open>toISOString\<close> throws, the loop and the analysis end there.\<close>

fun time_series :: "date_parser \<Rightarrow> string \<Rightarrow> string \<Rightarrow> row list \<Rightarrow> (string \<times> jsnum) list
    \<Rightarrow> error + (string \<times> jsnum) list" where
  "time_series dp dateName revenueName [] timeData = Inr timeData"
| "time_series dp dateName revenueName (r # rows) timeData =
     (case day_key dp (row_get r dateName) of
        Inl e \<Rightarrow> Inl e
      | Inr date \<Rightarrow>
          (let revenue = parseFloat (row_get r revenueName) in
           if \<not> js_isNaN revenue
           then time_series dp dateName revenueName rows
                  (AList.update date (js_add (or_zero (map_of timeData date)) revenue) timeData)
           else time_series dp dateName revenueName rows timeData))"

text \<open>\<open>timeData[date]\<close> for the chart: every date asked for is a key of \<open>timeData\<close>; a
  missing key would read \<open>undefined\<close>, which as a number is NaN.\<close>

definition time_value :: "(string \<times> jsnum) list \<Rightarrow> string \<Rightarrow> jsnum" where
  "time_value timeData date = (case map_of timeData date of None \<Rightarrow> NaN | Some v \<Rightarrow> v)"

definition is_date_column :: "ColumnInfo \<Rightarrow> bool" where
  "is_date_column col = (businessType col = Some Date \<or> type col = Datetime)"

definition is_category_column :: "ColumnInfo \<Rightarrow> bool" where
  "is_category_column col = (type col = Categorical \<and> uniqueValues col < 20)"

definition revenue_chart :: "analyzer \<Rightarrow> ColumnInfo list \<Rightarrow> ChartData list" where
  "revenue_chart a revenueColumns =
     (case revenueColumns of
        [] \<Rightarrow> []
      | revenueCol # others \<Rightarrow>
          (let values = parsed_values a (name revenueCol);
               bins = createHistogramBins values 10
           in [\<lparr> ctype = Bar, title = name revenueCol @ '' Distribution'',
                  labels = fst bins, series = Some (name revenueCol),
                  points = map of_count (snd bins) \<rparr>]))"

definition category_chart :: "analyzer \<Rightarrow> ColumnInfo list \<Rightarrow> ChartData list" where
  "category_chart a categoryColumns =
     (case categoryColumns of
        [] \<Rightarrow> []
      | categoryCol # others \<Rightarrow>
          (let categoryCounts = foldl count_value [] (column_values a (name categoryCol));
               sortedCategories =
                 take 10 (sort_key (\<lambda>kv. - int (snd kv)) (Object_entries categoryCounts))
           in [\<lparr> ctype = Doughnut, title = name categoryCol @ '' Distribution'',
                  labels = map (\<lambda>kv. Text (fst kv)) sortedCategories, series = None,
                  points = map (\<lambda>kv. of_count (snd kv)) sortedCategories \<rparr>]))"

definition trend_chart :: "date_parser \<Rightarrow> analyzer \<Rightarrow> ColumnInfo list \<Rightarrow> ColumnInfo list
    \<Rightarrow> error + ChartData list" where
  "trend_chart dp a dateColumns revenueColumns =
     (if 0 < length dateColumns \<and> 0 < length revenueColumns then
        (case time_series dp (name (hd dateColumns)) (name (hd revenueColumns)) (data a) [] of
           Inl e \<Rightarrow> Inl e
         | Inr timeData \<Rightarrow>
             (let sortedDates = sort (map fst timeData)
              in Inr [\<lparr> ctype = Line, title = ''Revenue Trend Over Time'',
                         labels = map Text sortedDates, series = Some ''Daily Revenue'',
                         points = map (time_value timeData) sortedDates \<rparr>]))
      else Inr [])"

definition generateCharts :: "date_parser \<Rightarrow> analyzer \<Rightarrow> error + ChartData list" where
  "generateCharts dp a =
     (let overview = getDataOverview dp a;
          revenueColumns = filter is_revenue_column (columns overview);
          categoryColumns = filter is_category_column (columns overview);
          dateColumns = filter is_date_column (columns overview)
      in case trend_chart dp a dateColumns revenueColumns of
           Inl e \<Rightarrow> Inl e
         | Inr trendCharts \<Rightarrow>
             Inr (revenue_chart a revenueColumns @ category_chart a categoryColumns
                  @ trendCharts))"

subsection \<open>Insights, recommendations and the complete analysis\<close>

text \<open>An insight is kept as the sentence it instantiates with the numbers it mentions; the
  source prints the numbers into the sentence, some of them with \<open>toLocaleString\<close>.\<close>

datatype insight =
    DatasetSize nat nat
  | CompletenessInsight jsnum nat
  | DuplicateRecords int
  | TotalRevenueInsight jsnum
  | UniqueCustomers nat

definition generateInsights :: "date_parser \<Rightarrow> analyzer \<Rightarrow> insight list" where
  "generateInsights dp a =
     (let overview = getDataOverview dp a;
          revenueColumns = filter (\<lambda>col. businessType col = Some Revenue) (columns overview);
          customerColumns = filter (\<lambda>col. businessType col = Some Customer) (columns overview)
      in [DatasetSize (length (data a)) (length (analyzer.columns a))]
         @ (if 0 < missingValues overview
            then [CompletenessInsight (completeness a overview) (missingValues overview)]
            else [])
         @ (if 0 < duplicateRows overview then [DuplicateRecords (duplicateRows overview)] else [])
         @ (case revenueColumns of
              [] \<Rightarrow> []
            | revenueCol # others \<Rightarrow>
                [TotalRevenueInsight (sum_values (parsed_values a (name revenueCol)))])
         @ (case customerColumns of
              [] \<Rightarrow> []
            | customerCol # others \<Rightarrow>
                [UniqueCustomers (length (remdups (column_values a (name customerCol))))]))"

definition generateRecommendations :: "date_parser \<Rightarrow> analyzer \<Rightarrow> string list" where
  "generateRecommendations dp a =
     (let overview = getDataOverview dp a;
          revenueColumns = filter (\<lambda>col. businessType col = Some Revenue) (columns overview);
          dateColumns = filter (\<lambda>col. businessType col = Some Date) (columns overview);
          categoryColumns = filter is_category_column (columns overview)
      in (if js_gt (of_count (missingValues overview))
                   (js_mul (of_count (length (data a))) (mk_num (5 / 100)))
          then [''Consider data cleaning to address missing values before analysis'']
          else [])
         @ (if 0 < duplicateRows overview
            then [''Remove duplicate records to improve data quality'']
            else [])
         @ (if 0 < length revenueColumns \<and> 0 < length dateColumns
            then [''Analyze revenue trends over time to identify seasonal patterns'']
            else [])
         @ (if 0 < length categoryColumns
            then [''Segment analysis by categories could reveal growth opportunities'']
            else [])
         @ (if 0 < length revenueColumns
            then [''Focus on high-value transactions to maximize revenue impact'']
            else []))"

record AnalysisResult =
  overview :: DataOverview
  metrics :: "Metric list"
  charts :: "ChartData list"
  insights :: "insight list"
  recommendations :: "string list"

text \<open>\<open>performCompleteAnalysis\<close> (the two-second delay before it computes is not part of
  the model). The first statement that throws ends the call.\<close>

definition performCompleteAnalysis :: "date_parser \<Rightarrow> analyzer \<Rightarrow> error + AnalysisResult" where
  "performCompleteAnalysis dp a =
     (case generateCharts dp a of
        Inl e \<Rightarrow> Inl e
      | Inr cs \<Rightarrow>
          Inr \<lparr> overview = getDataOverview dp a,
                metrics = generateMetrics dp a,
                charts = cs,
                insights = generateInsights dp a,
                recommendations = generateRecommendations dp a \<rparr>)"

text \<open>The operation of the upload handler: \<open>new DataAnalyzer(text)\<close>, whose constructor
  runs \<open>parseCSV\<close>, then \<open>performCompleteAnalysis()\<close>.\<close>

definition analyze :: "date_parser \<Rightarrow> string \<Rightarrow> error + AnalysisResult" where
  "analyze dp rawText =
     (case parseCSV rawText of
        Inl e \<Rightarrow> Inl e
      | Inr a \<Rightarrow> performCompleteAnalysis dp a)"

subsection \<open>The quoting rule, as the specification words it\<close>



fun pieces :: "string \<Rightarrow> nat \<Rightarrow> nat list \<Rightarrow> string list" where
  "pieces line start [] = [drop start line]"
| "pieces line start (s # ss) = take (s - start) (drop start line) # pieces line (Suc s) ss"



subsection \<open>Worked inputs\<close>

text \<open>A table with a missing cell in two rows and one repeated row.\<close>

definition cities_text :: string where
  "cities_text = ''id,city'' @ [nl] @ ''1,'' @ [nl] @ ''1,'' @ [nl] @ ''2,Oslo''"

definition cities_table :: analyzer where
  "cities_table =
     \<lparr> rawData = cities_text,
       columns = [''id'', ''city''],
       data = [[(''id'', ''1''), (''city'', [])],
               [(''id'', ''1''), (''city'', [])],
               [(''id'', ''2''), (''city'', ''Oslo'')]] \<rparr>"





text \<open>Three columns of cells: four numbers and a word, three amounts, three ISO dates.\<close>

definition digits_column :: "string list" where
  "digits_column = [''1'', ''2'', ''3'', ''4'', ''x'']"

definition amounts_column :: "string list" where
  "amounts_column = [''10'', ''20'', ''30'']"

definition dates_column :: "string list" where
  "dates_column = [''2024-01-01'', ''2024-01-01'', ''2024-01-01'']"

text \<open>The example table of the specification: three sales on two days.\<close>

definition sales_text :: string where
  "sales_text = ''amount,date'' @ [nl] @ ''10,2024-01-01'' @ [nl] @ ''20,2024-01-01''
                @ [nl] @ ''30,2024-01-02''"

definition sales_table :: analyzer where
  "sales_table =
     \<lparr> rawData = sales_text,
       columns = [''amount'', ''date''],
       data = [[(''amount'', ''10''), (''date'', ''2024-01-01'')],
               [(''amount'', ''20''), (''date'', ''2024-01-01'')],
               [(''amount'', ''30''), (''date'', ''2024-01-02'')]] \<rparr>"

definition amount_info :: ColumnInfo where
  "amount_info = \<lparr> name = ''amount'', type = Numeric, uniqueValues = 3, nullCount = 0,
                    isBusinessRelevant = True, businessType = Some Revenue \<rparr>"

definition date_info :: ColumnInfo where
  "date_info = \<lparr> name = ''date'', type = Datetime, uniqueValues = 2, nullCount = 0,
                  isBusinessRelevant = True, businessType = Some Date \<rparr>"

text \<open>A table whose amounts are all equal; a table whose only data row is shorter than
  the header; a table with a date cell that is no date.\<close>

definition equal_text :: string where
  "equal_text = ''amount'' @ [nl] @ ''5'' @ [nl] @ ''5''"

definition equal_table :: analyzer where
  "equal_table =
     \<lparr> rawData = equal_text, columns = [''amount''],
       data = [[(''amount'', ''5'')], [(''amount'', ''5'')]] \<rparr>"

definition short_row_text :: string where
  "short_row_text = ''amount,date'' @ [nl] @ ''10''"

definition short_row_table :: analyzer where
  "short_row_table =
     \<lparr> rawData = short_row_text, columns = [''amount'', ''date''],
       data = [[(''amount'', ''10''), (''date'', [])]] \<rparr>"

definition bad_date_text :: string where
  "bad_date_text = ''amount,date'' @ [nl] @ ''10,2024-01-01'' @ [nl] @ ''20,unknown''"

definition bad_date_table :: analyzer where
  "bad_date_table =
     \<lparr> rawData = bad_date_text, columns = [''amount'', ''date''],
       data = [[(''amount'', ''10''), (''date'', ''2024-01-01'')],
               [(''amount'', ''20''), (''date'', ''unknown'')]] \<rparr>"











text \<open>Three tables with the one column \<open>amount\<close>: no cell that parses; a cell that starts
  with a number and goes on with letters; the cells 0.1 and 0.2.\<close>

definition none_text :: string where
  "none_text = ''amount'' @ [nl] @ ''x''"

definition none_table :: analyzer where
  "none_table = \<lparr> rawData = none_text, columns = [''amount''], data = [[(''amount'', ''x'')]] \<rparr>"

definition prefix_text :: string where
  "prefix_text = ''amount'' @ [nl] @ ''12abc'' @ [nl] @ ''3''"

definition prefix_table :: analyzer where
  "prefix_table =
     \<lparr> rawData = prefix_text, columns = [''amount''],
       data = [[(''amount'', ''12abc'')], [(''amount'', ''3'')]] \<rparr>"

definition tenths_text :: string where
  "tenths_text = ''amount'' @ [nl] @ ''0.1'' @ [nl] @ ''0.2''"

definition tenths_table :: analyzer where
  "tenths_table =
     \<lparr> rawData = tenths_text, columns = [''amount''],
       data = [[(''amount'', ''0.1'')], [(''amount'', ''0.2'')]] \<rparr>"

section \<open>Properties\<close>

subsection \<open>Rounding to a double\<close>

lemma pow2_powi: "pow2 k = 2 powi k"
  by (simp add: pow2_def power_int_def power_one_over inverse_eq_divide)

lemma pow2_pos: "0 < pow2 k"
  by (simp add: pow2_powi)

lemma pow2_add: "pow2 (a + b) = pow2 a * pow2 b"
  by (simp add: pow2_powi power_int_add)

lemma pow2_less_iff: "pow2 a < pow2 b \<longleftrightarrow> a < b"
proof
  assume "a < b"
  then show "pow2 a < pow2 b"
    unfolding pow2_powi by (intro power_int_strict_increasing) auto
next
  assume l: "pow2 a < pow2 b"
  show "a < b"
  proof (rule ccontr)
    assume "\<not> a < b"
    then have "b \<le> a" by simp
    then have "pow2 b \<le> pow2 a"
      unfolding pow2_powi by (intro power_int_increasing) auto
    with l show False by simp
  qed
qed

lemma pow2_le_iff: "pow2 a \<le> pow2 b \<longleftrightarrow> a \<le> b"
  using pow2_less_iff[of b a] by (auto simp: not_less[symmetric])

lemma pow2_nat: "pow2 (int n) = 2 ^ n"
  by (simp add: pow2_def)

lemma binade_bounds:
  assumes "0 < r"
  shows "pow2 (binade r) \<le> r \<and> r < pow2 (binade r + 1)"
proof (cases "1 \<le> r")
  case True
  define a where "a = \<lfloor>r\<rfloor>"
  have a1: "1 \<le> a" unfolding a_def using True by simp
  then have a0: "0 < a" by simp
  have b1: "1 \<le> bitlen a" using a0 by (auto simp: bitlen_alt_def)
  have bd: "2 ^ nat (bitlen a - 1) \<le> a" "a < 2 ^ nat (bitlen a)"
    using bitlen_bounds[OF a0] by auto
  have e: "binade r = bitlen a - 1" using True by (simp add: binade_def a_def)
  have "pow2 (bitlen a - 1) = 2 ^ nat (bitlen a - 1)"
    using b1 by (simp add: pow2_def)
  also have "\<dots> = of_int (2 ^ nat (bitlen a - 1))" by simp
  also have "\<dots> \<le> of_int a" using bd(1) by (simp only: of_int_le_iff)
  also have "\<dots> \<le> r" unfolding a_def by simp
  finally have lo: "pow2 (binade r) \<le> r" by (simp add: e)
  have "a + 1 \<le> 2 ^ nat (bitlen a)" using bd(2) by simp
  then have "(of_int (a + 1) :: rat) \<le> of_int (2 ^ nat (bitlen a))"
    by (simp only: of_int_le_iff)
  moreover have "r < of_int (a + 1)" unfolding a_def by linarith
  ultimately have "r < of_int (2 ^ nat (bitlen a))" by linarith
  moreover have "pow2 (bitlen a - 1 + 1) = of_int (2 ^ nat (bitlen a))"
    using b1 by (simp add: pow2_def)
  ultimately have "r < pow2 (binade r + 1)" by (simp add: e)
  with lo show ?thesis by simp
next
  case False
  then have r1: "r < 1" by simp
  define s where "s = 1 / r"
  have s1: "1 < s" unfolding s_def using assms r1 by simp
  define c where "c = - \<lfloor>- s\<rfloor>"
  have c_ceil: "c = \<lceil>s\<rceil>" by (simp add: c_def ceiling_def)
  define m where "m = c - 1"
  have "2 \<le> c" unfolding c_ceil using s1 by linarith
  then have m0: "0 < m" by (simp add: m_def)
  have b1: "1 \<le> bitlen m" using m0 by (auto simp: bitlen_alt_def)
  have bd: "2 ^ nat (bitlen m - 1) \<le> m" "m < 2 ^ nat (bitlen m)"
    using bitlen_bounds[OF m0] by auto
  have e: "binade r = - bitlen m" using False by (simp add: binade_def m_def c_def s_def)
  have ms: "of_int m < s" unfolding m_def c_ceil by linarith
  have sc: "s \<le> of_int (m + 1)" unfolding m_def c_ceil by simp
  have "m + 1 \<le> 2 ^ nat (bitlen m)" using bd(2) by simp
  then have "(of_int (m + 1) :: rat) \<le> of_int (2 ^ nat (bitlen m))"
    by (simp only: of_int_le_iff)
  with sc have s_le: "s \<le> 2 ^ nat (bitlen m)" by simp
  have "(of_int (2 ^ nat (bitlen m - 1)) :: rat) \<le> of_int m"
    using bd(1) by (simp only: of_int_le_iff)
  then have "(of_int (2 ^ nat (bitlen m - 1)) :: rat) < s" using ms by linarith
  then have s_gt: "2 ^ nat (bitlen m - 1) < s" by simp
  have p1: "pow2 (- bitlen m) = 1 / 2 ^ nat (bitlen m)"
    using b1 by (simp add: pow2_def)
  have "1 / 2 ^ nat (bitlen m) \<le> 1 / s"
    using s_le s1 by (intro divide_left_mono) auto
  then have lo: "pow2 (binade r) \<le> r"
    using assms by (simp add: e p1 s_def)
  have p2: "pow2 (- bitlen m + 1) = 1 / 2 ^ nat (bitlen m - 1)"
  proof (cases "bitlen m = 1")
    case True
    then show ?thesis by (simp add: pow2_def)
  next
    case False
    with b1 have "1 < bitlen m" by simp
    then have "- bitlen m + 1 < 0" "nat (- (- bitlen m + 1)) = nat (bitlen m - 1)" by auto
    then show ?thesis by (simp add: pow2_def)
  qed
  have "0 < s * 2 ^ nat (bitlen m - 1)" using s1 by simp
  then have "1 / s < 1 / 2 ^ nat (bitlen m - 1)"
    using s_gt by (intro divide_strict_left_mono) auto
  moreover have "1 / s = r" by (simp add: s_def)
  moreover have "pow2 (binade r + 1) = 1 / 2 ^ nat (bitlen m - 1)"
    unfolding e by (rule p2)
  ultimately have "r < pow2 (binade r + 1)" by simp
  with lo show ?thesis by simp
qed

lemma binade_le: "0 < r \<Longrightarrow> r < pow2 (k + 1) \<Longrightarrow> binade r \<le> k"
proof -
  assume "0 < r" and "r < pow2 (k + 1)"
  then have "pow2 (binade r) < pow2 (k + 1)"
    using binade_bounds[of r] by simp
  then show ?thesis by (simp add: pow2_less_iff)
qed

lemma binade_ge: "0 < r \<Longrightarrow> pow2 k \<le> r \<Longrightarrow> k \<le> binade r"
proof -
  assume "0 < r" and "pow2 k \<le> r"
  then have "pow2 k < pow2 (binade r + 1)"
    using binade_bounds[of r] by simp
  then show ?thesis by (simp add: pow2_less_iff)
qed

lemma round_half_even_of_int: "round_half_even (of_int i) = i"
  by (simp add: round_half_even_def)

lemma round_half_even_range:
  "\<lfloor>x\<rfloor> \<le> round_half_even x \<and> round_half_even x \<le> \<lfloor>x\<rfloor> + 1"
  by (simp add: round_half_even_def Let_def)

lemma round_half_even_mono:
  assumes "x \<le> y"
  shows "round_half_even x \<le> round_half_even y"
proof (cases "\<lfloor>x\<rfloor> = \<lfloor>y\<rfloor>")
  case True
  have "x - of_int \<lfloor>x\<rfloor> \<le> y - of_int \<lfloor>x\<rfloor>" using assms by simp
  then show ?thesis
    using True by (auto simp: round_half_even_def Let_def)
next
  case False
  have "\<lfloor>x\<rfloor> \<le> \<lfloor>y\<rfloor>" using assms by (rule floor_mono)
  with False have "\<lfloor>x\<rfloor> + 1 \<le> \<lfloor>y\<rfloor>" by simp
  then show ?thesis
    using round_half_even_range[of x] round_half_even_range[of y] by linarith
qed

text \<open>Rounding cannot cross a number of the grid of the binade.\<close>

lemma round_double_grid:
  assumes "pow2 (- 1022) \<le> r" and "d = of_int j * pow2 k" and "binade r - 52 \<le> k"
  shows "(d \<le> r \<longrightarrow> d \<le> round_double r) \<and> (r \<le> d \<longrightarrow> round_double r \<le> d)"
proof -
  have r0: "0 < r" using assms(1) pow2_pos[of "- 1022"] by linarith
  have e: "- 1022 \<le> binade r" using r0 assms(1) by (rule binade_ge)
  define z where "z = binade r - 52"
  define q where "q = pow2 z"
  have q0: "0 < q" by (simp add: q_def pow2_pos)
  have rd: "round_double r = of_int (round_half_even (r / q)) * q"
    using r0 e by (simp add: round_double_def Let_def q_def z_def max_def)
  have kz: "0 \<le> k - z" using assms(3) by (simp add: z_def)
  have "pow2 k = pow2 (k - z) * pow2 z" using pow2_add[of "k - z" z] by simp
  also have "pow2 (k - z) = 2 ^ nat (k - z)" using kz by (simp add: pow2_def)
  finally have pk: "pow2 k = 2 ^ nat (k - z) * q" by (simp add: q_def)
  define i where "i = j * 2 ^ nat (k - z)"
  have d: "d = of_int i * q" by (simp add: assms(2) pk i_def)
  then have dq: "d / q = of_int i" using q0 by simp
  show ?thesis
  proof (intro conjI impI)
    assume "d \<le> r"
    then have "d / q \<le> r / q" using q0 by (simp add: divide_right_mono)
    then have "round_half_even (d / q) \<le> round_half_even (r / q)"
      by (rule round_half_even_mono)
    then have "i \<le> round_half_even (r / q)" by (simp add: dq round_half_even_of_int)
    then have "(of_int i :: rat) \<le> of_int (round_half_even (r / q))" by (simp only: of_int_le_iff)
    then show "d \<le> round_double r"
      unfolding rd d using q0 by (simp add: mult_right_mono)
  next
    assume "r \<le> d"
    then have "r / q \<le> d / q" using q0 by (simp add: divide_right_mono)
    then have "round_half_even (r / q) \<le> round_half_even (d / q)"
      by (rule round_half_even_mono)
    then have "round_half_even (r / q) \<le> i" by (simp add: dq round_half_even_of_int)
    then have "(of_int (round_half_even (r / q)) :: rat) \<le> of_int i" by (simp only: of_int_le_iff)
    then show "round_double r \<le> d"
      unfolding rd d using q0 by (simp add: mult_right_mono)
  qed
qed

text \<open>A positive integer below \<open>2^53\<close>, scaled by a power of two in the normal range,
  is a double.\<close>

lemma round_double_exact:
  assumes "0 < j" and "j < 2 ^ 53" and "pow2 (- 1022) \<le> of_int j * pow2 k"
  shows "round_double (of_int j * pow2 k) = of_int j * pow2 k"
proof -
  define r where "r = of_int j * pow2 k"
  have r0: "0 < r" using assms(1) pow2_pos[of k] by (simp add: r_def)
  have "(of_int j :: rat) < of_int (2 ^ 53)" using assms(2) by (simp only: of_int_less_iff)
  then have "(of_int j :: rat) < pow2 53" by (simp add: pow2_def)
  then have "r < pow2 53 * pow2 k" unfolding r_def using pow2_pos[of k] by simp
  then have "r < pow2 (52 + k + 1)" using pow2_add[of 53 k] by (simp add: add.commute)
  then have "binade r \<le> 52 + k" using r0 by (intro binade_le) auto
  then have "binade r - 52 \<le> k" by simp
  from round_double_grid[OF _ _ this, of r j] assms(3)
  have "r \<le> round_double r" "round_double r \<le> r" by (auto simp: r_def)
  then show ?thesis by (simp add: r_def)
qed

lemma round_double_int:
  assumes "0 \<le> j" and "j < 2 ^ 53"
  shows "round_double (of_int j) = of_int j"
proof (cases "j = 0")
  case True
  then show ?thesis by (simp add: round_double_def)
next
  case False
  with assms have j: "0 < j" by simp
  have "pow2 (- 1022) \<le> 1" by (simp add: pow2_def)
  also have "1 \<le> (of_int j :: rat)" using j by simp
  finally have "pow2 (- 1022) \<le> of_int j * pow2 0" by (simp add: pow2_def)
  from round_double_exact[OF j assms(2) this] show ?thesis by (simp add: pow2_def)
qed

lemma floor_divide_rat: "\<lfloor>(numeral a :: rat) / numeral b\<rfloor> = numeral a div numeral b"
  by (metis floor_divide_of_int_eq of_int_numeral)

lemma floor_minus_divide_rat: "\<lfloor>- ((numeral a :: rat) / numeral b)\<rfloor> = - numeral a div numeral b"
  by (metis divide_minus_left floor_divide_of_int_eq of_int_neg_numeral of_int_numeral)

lemmas round_eval = round_double_def binade_def bitlen_def compute_floorlog round_half_even_def
  pow2_def floor_divide_rat floor_minus_divide_rat Let_def

lemma round_double_nonneg: "0 \<le> r \<Longrightarrow> 0 \<le> round_double r"
proof -
  assume r: "0 \<le> r"
  define q where "q = pow2 (max (binade \<bar>r\<bar>) (- 1022) - 52)"
  have q0: "0 < q" by (simp add: q_def pow2_pos)
  have "0 \<le> r / q" using r q0 by simp
  then have "round_half_even 0 \<le> round_half_even (r / q)" by (rule round_half_even_mono)
  then have "0 \<le> round_half_even (r / q)" using round_half_even_of_int[of 0] by simp
  then have "0 \<le> (of_int (round_half_even (r / q)) :: rat) * q" using q0 by simp
  then show ?thesis by (simp add: round_double_def Let_def q_def)
qed

lemma mk_num_bounded:
  assumes "0 \<le> round_double r" and "round_double r < 2 ^ 1024"
  shows "mk_num r = Num (round_double r)"
proof -
  have "\<not> round_double r \<le> - (2 ^ 1024)" using assms(1) by simp
  then show ?thesis using assms(2) by (simp add: mk_num_def Let_def)
qed

text \<open>Overflow and underflow: an exact result of \<open>2^1024\<close> or more is an infinity, and one
  below \<open>2^(-1075)\<close>, half the least positive double, is zero.\<close>

lemma mk_num_overflow:
  assumes "2 ^ 1024 \<le> r"
  shows "mk_num r = PInf"
proof -
  have p: "pow2 1024 \<le> r" using assms by (simp add: pow2_def)
  have r0: "0 < r" using p pow2_pos[of 1024] by linarith
  have b: "1024 \<le> binade r" using r0 p by (rule binade_ge)
  have "pow2 (- 1022) \<le> pow2 1024" by (simp add: pow2_le_iff)
  then have n: "pow2 (- 1022) \<le> r" using p by linarith
  have "pow2 (binade r) \<le> r" using binade_bounds[OF r0] by simp
  with round_double_grid[OF n, of "pow2 (binade r)" 1 "binade r"]
  have "pow2 (binade r) \<le> round_double r" by simp
  moreover have "pow2 1024 \<le> pow2 (binade r)" using b by (simp add: pow2_le_iff)
  ultimately have "2 ^ 1024 \<le> round_double r" by (simp add: pow2_def)
  then show ?thesis by (simp add: mk_num_def Let_def)
qed

lemma mk_num_underflow:
  assumes "0 \<le> r" and "r < pow2 (- 1075)"
  shows "mk_num r = Num 0"
proof (cases "r = 0")
  case True
  then show ?thesis by (simp add: mk_num_def round_double_def)
next
  case False
  with assms(1) have r0: "0 < r" by simp
  have "r < pow2 (- 1076 + 1)" using assms(2) by simp
  then have "binade r \<le> - 1076" using r0 by (intro binade_le)
  then have m: "max (binade \<bar>r\<bar>) (- 1022) - 52 = - 1074" using r0 by simp
  define q where "q = pow2 (- 1074)"
  have q0: "0 < q" by (simp add: q_def pow2_pos)
  have "pow2 (- 1074) = pow2 (- 1075) * 2" using pow2_add[of "- 1075" 1] by (simp add: pow2_def)
  then have "r < q / 2" using assms(2) by (simp add: q_def)
  then have lt: "r / q < 1 / 2" using q0 by (simp add: field_simps)
  have ge: "0 \<le> r / q" using r0 q0 by simp
  have f: "\<lfloor>r / q\<rfloor> = 0" using lt ge by linarith
  have "round_half_even (r / q) = 0"
    using lt by (simp add: round_half_even_def Let_def f)
  then have "round_double r = 0"
    using False by (simp add: round_double_def Let_def m q_def)
  then show ?thesis by (simp add: mk_num_def Let_def)
qed

lemma round_double_8_10: "round_double (8 / 10) = 3602879701896397 / 4503599627370496"
  by (simp add: round_eval)

lemma mk_num_8_10: "mk_num (8 / 10) = Num (3602879701896397 / 4503599627370496)"
  unfolding mk_num_def round_double_8_10 Let_def by simp

lemma mk_num_5_10: "mk_num (5 / 10) = Num (1 / 2)"
proof -
  have "round_double (5 / 10) = 1 / 2" by (simp add: round_eval)
  then show ?thesis unfolding mk_num_def Let_def by simp
qed

text \<open>Rounding on examples: the percentage of 23 cells in 40, which \<open>Math.round\<close> brings
  to 57; the quotient of 0.3 by a bin width of 0.1, which is below 3; an integer past
  \<open>2^53\<close>.\<close>

lemma rounding_examples:
  "js_mul (js_div (Num 23) (Num 40)) (Num 100) = Num (8092405580431359 / 2 ^ 47)"
  "Math_round (js_mul (js_div (Num 23) (Num 40)) (Num 100)) = Num 57"
  "Math_floor (js_div (mk_num (3 / 10)) (js_div (Num 1) (Num 10))) = Num 2"
  "mk_num 9007199254740993 = Num 9007199254740992"
  by (simp_all add: mk_num_def round_eval)

subsection \<open>Evaluation rules\<close>

lemmas tokenizer_eval = parseCSV_def js_trim_def isWhiteSpace_def nl_def dq_def strip_quotes_def
  parseCSVLine_def make_row_def row_set_def cell_def Let_def

lemmas number_eval = mk_num_def js_sub_def js_gt_def inf_of_sign_def of_count_def js_isNaN_def
  Math_min2_def Math_max2_def Math_min_def Math_max_def
  round_eval

lemmas parse_number_eval = parseFloat_def trimStart_def str_decimal_literal_def starts_with_def
  unsigned_decimal_def isDigit_def exponent_part_def digits_val_def digit_val_def pow10_def
  ToNumber_def js_isFinite_def radix_literal_def radix_digit_def is_numeric_value_def
  isWhiteSpace_def js_trim_def

lemmas name_eval = toLowerCase_def lower_char_def test_prefix_def starts_with_def
  relevant_words_def revenue_words_def customer_words_def date_words_def char_of_eq_iff

lemmas date_parse_eval = iso_date_parse_def days_in_month_def days_from_civil_def
  isDigit_def digits_val_def digit_val_def

lemma numeric_values:
  "is_numeric_value ''1''" "is_numeric_value ''2''" "is_numeric_value ''3''"
  "is_numeric_value ''4''" "is_numeric_value ''10''" "is_numeric_value ''20''"
  "is_numeric_value ''30''" "is_numeric_value ''5''"
  by (simp_all add: parse_number_eval number_eval)

lemma not_numeric_values:
  "\<not> is_numeric_value ''x''" "\<not> is_numeric_value ''2024-01-01''"
  "\<not> is_numeric_value ''2024-01-02''"
  by (simp_all add: parse_number_eval number_eval)

lemma not_dates:
  "iso_date_parse ''1'' = None" "iso_date_parse ''2'' = None" "iso_date_parse ''3'' = None"
  "iso_date_parse ''4'' = None" "iso_date_parse ''x'' = None" "iso_date_parse ''10'' = None"
  "iso_date_parse ''20'' = None" "iso_date_parse ''30'' = None" "iso_date_parse ''5'' = None"
  "iso_date_parse [] = None"
  by (simp_all add: iso_date_parse_def)

lemma dates:
  "iso_date_parse ''2024-01-01'' = Some 1704067200000"
  "iso_date_parse ''2024-01-02'' = Some 1704153600000"
  by (simp_all add: date_parse_eval)

lemmas value_eval = numeric_values not_numeric_values not_dates dates is_date_value_def

lemma parse_floats:
  "parseFloat ''10'' = Num 10" "parseFloat ''20'' = Num 20" "parseFloat ''30'' = Num 30"
  "parseFloat ''5'' = Num 5" "parseFloat [] = NaN"
  by (simp_all add: parse_number_eval number_eval)

lemma iso_days:
  "iso_day 1704067200000 = ''2024-01-01''" "iso_day 1704153600000 = ''2024-01-02''"
  unfolding iso_day_def civil_from_days_def Let_def pad_digits_def digit_char_def
  by (simp_all add: upt_rec char_of_eq_iff)

lemma day_keys:
  "day_key iso_date_parse ''2024-01-01'' = Inr ''2024-01-01''"
  "day_key iso_date_parse ''2024-01-02'' = Inr ''2024-01-02''"
  "day_key iso_date_parse ''unknown'' = Inl RangeError"
  "day_key iso_date_parse [] = Inl RangeError"
proof -
  have u: "iso_date_parse ''unknown'' = None"
    by (simp add: iso_date_parse_def)
  show "day_key iso_date_parse ''2024-01-01'' = Inr ''2024-01-01''"
    by (simp add: day_key_def dates iso_days)
  show "day_key iso_date_parse ''2024-01-02'' = Inr ''2024-01-02''"
    by (simp add: day_key_def dates iso_days)
  show "day_key iso_date_parse ''unknown'' = Inl RangeError"
    by (simp add: day_key_def u)
  show "day_key iso_date_parse [] = Inl RangeError"
    by (simp add: day_key_def not_dates)
qed

subsection \<open>What a successful parse yields\<close>

lemma parseCSV_Inr:
  assumes "parseCSV raw = Inr a"
  shows "2 \<le> length (js_split nl (js_trim raw))"
    and "analyzer.columns a = map (\<lambda>col. strip_quotes (js_trim col))
            (js_split (CHR '','') (hd (js_split nl (js_trim raw))))"
    and "data a = map (\<lambda>line. make_row (analyzer.columns a) (parseCSVLine line))
            (tl (js_split nl (js_trim raw)))"
    and "rawData a = raw"
proof -
  show len: "2 \<le> length (js_split nl (js_trim raw))"
  proof (rule ccontr)
    assume "\<not> 2 \<le> length (js_split nl (js_trim raw))"
    then have "parseCSV raw = Inl MalformedInput"
      by (simp add: parseCSV_def Let_def)
    with assms show False by simp
  qed
  then have a: "a = \<lparr> rawData = raw,
      columns = map (\<lambda>col. strip_quotes (js_trim col))
            (js_split (CHR '','') (hd (js_split nl (js_trim raw)))),
      data = map (\<lambda>line. make_row (map (\<lambda>col. strip_quotes (js_trim col))
            (js_split (CHR '','') (hd (js_split nl (js_trim raw))))) (parseCSVLine line))
            (tl (js_split nl (js_trim raw))) \<rparr>"
    using assms by (simp add: parseCSV_def Let_def)
  show "analyzer.columns a = map (\<lambda>col. strip_quotes (js_trim col))
            (js_split (CHR '','') (hd (js_split nl (js_trim raw))))"
    by (subst a) simp
  show "data a = map (\<lambda>line. make_row (analyzer.columns a) (parseCSVLine line))
            (tl (js_split nl (js_trim raw)))"
    by (subst a, subst a) simp
  show "rawData a = raw"
    by (subst a) simp
qed

lemma parseCSV_data_nonempty:
  assumes "parseCSV raw = Inr a"
  shows "data a \<noteq> []"
proof -
  have "2 \<le> length (js_split nl (js_trim raw))"
    using assms by (rule parseCSV_Inr(1))
  then have "tl (js_split nl (js_trim raw)) \<noteq> []"
    by (cases "js_split nl (js_trim raw)") auto
  then show ?thesis
    by (simp add: parseCSV_Inr(3)[OF assms])
qed

lemma parse_cities: "parseCSV cities_text = Inr cities_table"
  by (simp add: tokenizer_eval cities_text_def cities_table_def)

lemma parse_sales: "parseCSV sales_text = Inr sales_table"
  by (simp add: tokenizer_eval sales_text_def sales_table_def)

lemma parse_equal: "parseCSV equal_text = Inr equal_table"
  by (simp add: tokenizer_eval equal_text_def equal_table_def)

lemma parse_short_row: "parseCSV short_row_text = Inr short_row_table"
  by (simp add: tokenizer_eval short_row_text_def short_row_table_def)

lemma parse_bad_date: "parseCSV bad_date_text = Inr bad_date_table"
  by (simp add: tokenizer_eval bad_date_text_def bad_date_table_def)






lemma parse_none: "parseCSV none_text = Inr none_table"
  by (simp add: tokenizer_eval none_text_def none_table_def)

lemma parse_prefix: "parseCSV prefix_text = Inr prefix_table"
  by (simp add: tokenizer_eval prefix_text_def prefix_table_def)

lemma parse_tenths: "parseCSV tenths_text = Inr tenths_table"
  by (simp add: tokenizer_eval tenths_text_def tenths_table_def)


subsection \<open>The tokenizer\<close>









lemma pieces_shift: "pieces (c # cs) (Suc k) (map Suc ss) = pieces cs k ss"
  by (induction ss arbitrary: k) auto


lemma pieces_Cons_0:
  "pieces (c # cs) 0 (0 # map Suc ss) = [] # pieces cs 0 ss"
  by (simp add: pieces_shift)









subsection \<open>Rows\<close>


















subsection \<open>The column classifier\<close>

text \<open>
  The two thresholds compare a count with a product \<open>n * 0.8\<close> or \<open>n * 0.5\<close>, computed in
  doubles. For an array length \<open>n\<close> (below \<open>2^32\<close>) the comparisons are comparisons of
  integers: \<open>n * 0.5\<close> is exact, and the rounded product of \<open>n\<close> and the double of 0.8 lies
  between the integer part \<open>k\<close> of \<open>4n/5\<close> and \<open>k + 7/8\<close>.
\<close>

lemma more_than_80_percent:
  assumes "n < 2 ^ 32"
  shows "js_gt (of_count m) (js_mul (of_count n) (mk_num (8 / 10))) \<longleftrightarrow> 4 * n < 5 * m"
proof (cases "n = 0")
  case True
  have "mk_num 0 = Num 0" by (simp add: mk_num_def round_double_def)
  then have "js_mul (of_count 0) (mk_num (8 / 10)) = Num 0"
    unfolding mk_num_8_10 of_count_def by simp
  then show ?thesis using True by (simp add: js_gt_def of_count_def)
next
  case False
  define c :: rat where "c = 3602879701896397 / 4503599627370496"
  define x :: rat where "x = of_nat n * c"
  define k :: int where "k = int ((4 * n) div 5)"
  have c: "c = 4 / 5 + 1 / (5 * 2 ^ 52)" by (simp add: c_def)
  have n1: "(1::rat) \<le> of_nat n" using False by (simp add: Suc_leI)
  have n32: "(of_nat n :: rat) < 2 ^ 32"
    using assms by (metis of_nat_less_iff of_nat_numeral of_nat_power)
  have x_eq: "x = of_nat (4 * n) / 5 + of_nat n / (5 * 2 ^ 52)"
    by (simp add: x_def c field_simps)
  have "5 * ((4 * n) div 5) \<le> 4 * n" by simp
  then have "(of_nat (5 * ((4 * n) div 5)) :: rat) \<le> of_nat (4 * n)"
    by (simp only: of_nat_le_iff)
  then have k_le: "of_int k \<le> (of_nat (4 * n) :: rat) / 5"
    by (simp add: k_def field_simps)
  have "4 * n < 5 * ((4 * n) div 5) + 5" 
    using mod_less_divisor[of 5 "4 * n"] mult_div_mod_eq[of 5 "4 * n"] by linarith
  then have "4 * n \<le> 5 * ((4 * n) div 5) + 4" by linarith
  then have "(of_nat (4 * n) :: rat) \<le> of_nat (5 * ((4 * n) div 5) + 4)"
    by (simp only: of_nat_le_iff)
  then have k_ge: "(of_nat (4 * n) :: rat) / 5 \<le> of_int k + 4 / 5"
    by (simp add: k_def field_simps)
  have small: "(of_nat n :: rat) / (5 * 2 ^ 52) < 3 / 40"
    using n32 by (simp add: field_simps)
  have small0: "0 \<le> (of_nat n :: rat) / (5 * 2 ^ 52)" by simp
  have lo: "of_int k \<le> x" using k_le small0 unfolding x_eq by linarith
  have hi: "x \<le> of_int (8 * k + 7) / 8" using k_ge small unfolding x_eq by simp
  have k0: "0 \<le> k" by (simp add: k_def)
  have "4 / 5 \<le> c" by (simp add: c_def)
  then have "4 / 5 * 1 \<le> c * of_nat n" using n1 by (intro mult_mono) auto
  then have "4 / 5 \<le> x" by (simp add: x_def mult.commute)
  then have xp: "pow2 (- 1022) \<le> x" by (simp add: pow2_def)
  have x0: "0 < x" using \<open>4 / 5 \<le> x\<close> by simp
  have "x < 2 ^ 32 * 1" unfolding x_def using n32 by (intro mult_strict_mono) (auto simp: c_def)
  then have "x < pow2 (31 + 1)" by (simp add: pow2_def)
  then have b: "binade x \<le> 31" using x0 by (intro binade_le)
  have g1: "of_int k \<le> round_double x"
    using round_double_grid[OF xp, of "of_int k" k 0] b lo by (simp add: pow2_def)
  have g2: "round_double x \<le> of_int (8 * k + 7) / 8"
    using round_double_grid[OF xp, of "of_int (8 * k + 7) / 8" "8 * k + 7" "- 3"] b hi
    by (simp add: pow2_def)
  have kx: "(of_int k :: rat) \<le> 2 ^ 32" using lo \<open>x < 2 ^ 32 * 1\<close> by simp
  have "round_double x \<le> 2 ^ 32 + 7 / 8" using g2 kx by simp
  also have "\<dots> < 2 ^ 1024" by simp
  finally have fin: "round_double x < 2 ^ 1024" .
  have "0 \<le> round_double x" using g1 k0 by simp
  then have mk: "mk_num x = Num (round_double x)" using fin by (rule mk_num_bounded)
  have "round_double x < of_nat m \<longleftrightarrow> k < int m"
  proof
    assume "round_double x < of_nat m"
    then have "(of_int k :: rat) < of_int (int m)" using g1 by simp
    then show "k < int m" by (simp only: of_int_less_iff)
  next
    assume "k < int m"
    then have "k + 1 \<le> int m" by simp
    then have "(of_int (k + 1) :: rat) \<le> of_int (int m)" by (simp only: of_int_le_iff)
    then show "round_double x < of_nat m" using g2 by simp
  qed
  also have "\<dots> \<longleftrightarrow> (4 * n) div 5 < m" by (simp add: k_def)
  also have "\<dots> \<longleftrightarrow> 4 * n < 5 * m" by (simp add: div_less_iff_less_mult mult.commute)
  finally have "round_double x < of_nat m \<longleftrightarrow> 4 * n < 5 * m" .
  moreover have "js_mul (of_count n) (mk_num (8 / 10)) = Num (round_double x)"
    unfolding mk_num_8_10 of_count_def js_mul.simps c_def[symmetric] x_def[symmetric] by (rule mk)
  ultimately show ?thesis
    by (simp add: js_gt_def of_count_def)
qed

lemma less_than_50_percent:
  assumes "n < 2 ^ 32"
  shows "js_lt (of_count u) (js_mul (of_count n) (mk_num (5 / 10))) \<longleftrightarrow> 2 * u < n"
proof (cases "n = 0")
  case True
  have "mk_num 0 = Num 0" by (simp add: mk_num_def round_double_def)
  then have "js_mul (of_count 0) (mk_num (5 / 10)) = Num 0"
    unfolding mk_num_5_10 of_count_def by simp
  then show ?thesis using True by (simp add: of_count_def)
next
  case False
  then have n0: "0 < int n" by simp
  have "int n < 2 ^ 32" using assms by (metis of_nat_less_iff of_nat_numeral of_nat_power)
  then have n53: "int n < 2 ^ 53" by simp
  have "(1::rat) \<le> of_int (int n)" using n0 by simp
  then have "pow2 (- 1022) \<le> of_int (int n) * pow2 (- 1)"
    by (simp add: pow2_def)
  from round_double_exact[OF n0 n53 this]
  have rd: "round_double (of_nat n * (1 / 2)) = of_nat n * (1 / 2)" by (simp add: pow2_def)
  have "(of_nat n :: rat) * (1 / 2) < 2 ^ 1024"
  proof -
    have "(of_nat n :: rat) < 2 ^ 32"
      using assms by (metis of_nat_less_iff of_nat_numeral of_nat_power)
    then show ?thesis by simp
  qed
  then have mk: "mk_num (of_nat n * (1 / 2)) = Num (of_nat n * (1 / 2))"
    using mk_num_bounded[of "of_nat n * (1 / 2)"] rd by simp
  have "((of_nat u :: rat) < of_nat n * (1 / 2)) \<longleftrightarrow> (of_nat (2 * u) :: rat) < of_nat n"
    by (simp add: field_simps)
  then have "((of_nat u :: rat) < of_nat n * (1 / 2)) \<longleftrightarrow> 2 * u < n"
    by (simp only: of_nat_less_iff)
  then show ?thesis
    unfolding of_count_def mk_num_5_10 js_mul.simps mk js_lt.simps .
qed

lemma non_empty_bound: "length values < 2 ^ 32 \<Longrightarrow> length (filter P values) < 2 ^ 32"
  using length_filter_le[of P "values"] by linarith

lemma detect_type:
  "type (detectColumnType dp columnName values) = Numeric \<longleftrightarrow>
     js_gt (of_count (length (filter is_numeric_value (filter (\<lambda>v. v \<noteq> []) values))))
           (js_mul (of_count (length (filter (\<lambda>v. v \<noteq> []) values))) (mk_num (8 / 10)))"
  by (simp add: detectColumnType_def Let_def)

text \<open>
  Claim C3 as the code has it (amended). For a column of fewer than \<open>2^32\<close> cells,
  over its non-empty cells: the column is \<open>numeric\<close> when strictly more than 80% of them
  are numeric values, otherwise \<open>datetime\<close> when strictly more than 80% of them parse as
  dates, otherwise \<open>categorical\<close>.
\<close>

theorem column_type_thresholds:
  assumes "length values < 2 ^ 32"
  shows "type (detectColumnType dp columnName values) =
     (let nonEmpty = filter (\<lambda>v. v \<noteq> []) values;
          numeric = filter is_numeric_value nonEmpty;
          dates = filter (is_date_value dp) nonEmpty
      in if 4 * length nonEmpty < 5 * length numeric then Numeric
         else if 4 * length nonEmpty < 5 * length dates then Datetime
         else Categorical)"
proof -
  define nonEmpty where "nonEmpty = filter (\<lambda>v. v \<noteq> []) values"
  define numeric where "numeric = filter is_numeric_value nonEmpty"
  define dates where "dates = filter (is_date_value dp) nonEmpty"
  have n: "length nonEmpty < 2 ^ 32"
    unfolding nonEmpty_def using assms by (rule non_empty_bound)
  have "type (detectColumnType dp columnName values) =
     (if js_gt (of_count (length numeric)) (js_mul (of_count (length nonEmpty)) (mk_num (8 / 10)))
      then Numeric
      else if js_gt (of_count (length dates)) (js_mul (of_count (length nonEmpty)) (mk_num (8 / 10)))
      then Datetime else Categorical)"
    by (simp add: detectColumnType_def Let_def nonEmpty_def numeric_def dates_def)
  also have "\<dots> = (if 4 * length nonEmpty < 5 * length numeric then Numeric
         else if 4 * length nonEmpty < 5 * length dates then Datetime
         else Categorical)"
    unfolding more_than_80_percent[OF n] ..
  finally show ?thesis
    by (simp add: Let_def nonEmpty_def numeric_def dates_def)
qed

theorem column_type_thresholds_witness:
  "length amounts_column < 2 ^ 32
   \<and> type (detectColumnType iso_date_parse ''amount'' amounts_column) = Numeric"
proof -
  have h: "length amounts_column < 2 ^ 32" by (simp add: amounts_column_def)
  show ?thesis
    using h column_type_thresholds [OF h, of iso_date_parse "''amount''"]
    by (simp add: amounts_column_def value_eval)
qed

text \<open>
  Claim C3 as stated fails: of the five non-empty cells of \<open>digits_column\<close> exactly four,
  that is exactly 80%, are numeric values, and the column is not classified \<open>numeric\<close>.
\<close>

theorem exactly_80_percent_counterexample:
  "length (filter (\<lambda>v. v \<noteq> []) digits_column) = 5
   \<and> length (filter is_numeric_value (filter (\<lambda>v. v \<noteq> []) digits_column)) = 4
   \<and> type (detectColumnType iso_date_parse ''n'' digits_column) \<noteq> Numeric"
  unfolding detectColumnType_def Let_def digits_column_def
  by (simp add: value_eval number_eval)

text \<open>
  Claim C4 as the code has it (amended). For a column of fewer than \<open>2^32\<close> cells the
  business role is the first match of: a name starting with a revenue word gives
  \<open>revenue\<close>; with a customer word, \<open>customer\<close>; with a date word, \<open>date\<close>; a column
  that is not classified numeric (categorical or datetime) whose number of distinct
  non-empty values is below 50% of its number of non-empty values, \<open>category\<close>; a numeric
  column, \<open>quantity\<close>; otherwise none. A column named \<open>revenue\<close> has role \<open>revenue\<close>
  whatever its cells.
\<close>

theorem business_role_priority:
  assumes "length values < 2 ^ 32"
  shows "businessType (detectColumnType dp columnName values) =
     (let info = detectColumnType dp columnName values;
          lowerName = toLowerCase columnName;
          nonEmpty = filter (\<lambda>v. v \<noteq> []) values
      in if test_prefix revenue_words lowerName then Some Revenue
         else if test_prefix customer_words lowerName then Some Customer
         else if test_prefix date_words lowerName then Some Date
         else if type info \<noteq> Numeric \<and> 2 * uniqueValues info < length nonEmpty
           then Some Category
         else if type info = Numeric then Some Quantity
         else None)
     \<and> uniqueValues (detectColumnType dp columnName values)
         = card (set (filter (\<lambda>v. v \<noteq> []) values))
     \<and> businessType (detectColumnType dp ''revenue'' values) = Some Revenue"
proof -
  define nonEmpty where "nonEmpty = filter (\<lambda>v. v \<noteq> []) values"
  define isNumeric where "isNumeric =
     js_gt (of_count (length (filter is_numeric_value nonEmpty)))
           (js_mul (of_count (length nonEmpty)) (mk_num (8 / 10)))"
  define info where "info = detectColumnType dp columnName values"
  have n: "length nonEmpty < 2 ^ 32"
    unfolding nonEmpty_def using assms by (rule non_empty_bound)
  have r: "test_prefix revenue_words (toLowerCase ''revenue'')"
    by (simp add: name_eval)
  have 1: "businessType (detectColumnType dp ''revenue'' values) = Some Revenue"
    unfolding detectColumnType_def Let_def using r by simp
  have u: "uniqueValues info = length (remdups nonEmpty)"
    unfolding info_def detectColumnType_def Let_def nonEmpty_def by simp
  then have 2: "uniqueValues info = card (set nonEmpty)"
    by (simp add: length_remdups_card_conv)
  have t: "type info = Numeric \<longleftrightarrow> isNumeric"
    unfolding info_def isNumeric_def nonEmpty_def by (rule detect_type)
  have "businessType info =
     (if test_prefix revenue_words (toLowerCase columnName) then Some Revenue
      else if test_prefix customer_words (toLowerCase columnName) then Some Customer
      else if test_prefix date_words (toLowerCase columnName) then Some Date
      else if \<not> isNumeric \<and> js_lt (of_count (length (remdups nonEmpty)))
                        (js_mul (of_count (length nonEmpty)) (mk_num (5 / 10)))
        then Some Category
      else if isNumeric then Some Quantity
      else None)"
    unfolding info_def isNumeric_def nonEmpty_def
    by (simp add: detectColumnType_def Let_def)
  also have "\<dots> =
     (if test_prefix revenue_words (toLowerCase columnName) then Some Revenue
      else if test_prefix customer_words (toLowerCase columnName) then Some Customer
      else if test_prefix date_words (toLowerCase columnName) then Some Date
      else if type info \<noteq> Numeric \<and> 2 * uniqueValues info < length nonEmpty
        then Some Category
      else if type info = Numeric then Some Quantity
      else None)"
    unfolding less_than_50_percent[OF n] t u ..
  finally have 3: "businessType info =
     (let info = detectColumnType dp columnName values;
          lowerName = toLowerCase columnName;
          nonEmpty = filter (\<lambda>v. v \<noteq> []) values
      in if test_prefix revenue_words lowerName then Some Revenue
         else if test_prefix customer_words lowerName then Some Customer
         else if test_prefix date_words lowerName then Some Date
         else if type info \<noteq> Numeric \<and> 2 * uniqueValues info < length nonEmpty
           then Some Category
         else if type info = Numeric then Some Quantity
         else None)"
    unfolding Let_def info_def nonEmpty_def .
  from 1 2 3 show ?thesis
    unfolding info_def nonEmpty_def by blast
qed

theorem business_role_priority_witness:
  "length amounts_column < 2 ^ 32
   \<and> businessType (detectColumnType iso_date_parse ''qty'' amounts_column) = Some Quantity"
proof -
  have h: "length amounts_column < 2 ^ 32" by (simp add: amounts_column_def)
  have t: "type (detectColumnType iso_date_parse ''qty'' amounts_column) = Numeric"
    unfolding detectColumnType_def Let_def amounts_column_def
    by (simp add: value_eval number_eval)
  show ?thesis
    using h business_role_priority [OF h, of iso_date_parse "''qty''"] t
    by (simp add: name_eval)
qed

text \<open>
  Claim C4 as stated fails in its last part: the column \<open>when\<close> with three equal ISO dates
  is classified \<open>datetime\<close>, not \<open>categorical\<close>, and gets the role \<open>category\<close>.
\<close>

theorem datetime_category_counterexample:
  "type (detectColumnType iso_date_parse ''when'' dates_column) = Datetime
   \<and> businessType (detectColumnType iso_date_parse ''when'' dates_column) = Some Category"
  unfolding detectColumnType_def Let_def dates_column_def
  by (simp add: value_eval number_eval name_eval)

subsection \<open>The overview\<close>

lemma foldl_add_sum_list:
  fixes f :: "'a \<Rightarrow> nat"
  shows "foldl (\<lambda>sum col. sum + f col) k cols = k + sum_list (map f cols)"
  by (induction cols arbitrary: k) auto

text \<open>
  Claim C6. For every table that \<open>parseCSV\<close> accepts, the overview's \<open>missingValues\<close> is
  the sum of the \<open>nullCount\<close> of its columns, and \<open>duplicateRows\<close> is at least 0 and at
  most \<open>totalRows - 1\<close>.
\<close>

theorem overview_invariants:
  assumes "parseCSV raw = Inr a"
  shows "missingValues (getDataOverview dp a)
           = sum_list (map nullCount (columns (getDataOverview dp a)))
         \<and> 0 \<le> duplicateRows (getDataOverview dp a)
         \<and> duplicateRows (getDataOverview dp a) \<le> int (totalRows (getDataOverview dp a)) - 1"
proof -
  have ne: "data a \<noteq> []" using assms by (rule parseCSV_data_nonempty)
  then have "remdups (data a) \<noteq> []" by simp
  then have one: "1 \<le> int (length (remdups (data a)))"
    by (cases "remdups (data a)") auto
  have le: "int (length (remdups (data a))) \<le> int (length (data a))"
    using length_remdups_leq[of "data a"] by simp
  have m: "missingValues (getDataOverview dp a)
           = sum_list (map nullCount (columns (getDataOverview dp a)))"
    by (simp add: getDataOverview_def Let_def foldl_add_sum_list)
  have d: "duplicateRows (getDataOverview dp a)
           = int (length (data a)) - int (length (remdups (data a)))"
    by (simp add: getDataOverview_def Let_def)
  have t: "totalRows (getDataOverview dp a) = length (data a)"
    by (simp add: getDataOverview_def Let_def)
  have "0 \<le> duplicateRows (getDataOverview dp a)"
    unfolding d using le by linarith
  moreover have "duplicateRows (getDataOverview dp a)
                   \<le> int (totalRows (getDataOverview dp a)) - 1"
    unfolding d t using one by linarith
  ultimately show ?thesis using m by blast
qed

theorem overview_invariants_witness:
  "parseCSV cities_text = Inr cities_table
   \<and> missingValues (getDataOverview iso_date_parse cities_table)
       = sum_list (map nullCount (columns (getDataOverview iso_date_parse cities_table)))
   \<and> 0 \<le> duplicateRows (getDataOverview iso_date_parse cities_table)
   \<and> duplicateRows (getDataOverview iso_date_parse cities_table)
       \<le> int (totalRows (getDataOverview iso_date_parse cities_table)) - 1"
  using parse_cities overview_invariants [OF parse_cities, of iso_date_parse] by blast

subsection \<open>The metrics\<close>

lemma parsed_values_unfold:
  "parsed_values a col = filter (\<lambda>v. v \<noteq> NaN) (map (\<lambda>r. parseFloat (row_get r col)) (data a))"
  by (simp add: parsed_values_def column_values_def js_isNaN_def comp_def)

lemma sales_columns:
  "column_values sales_table ''amount'' = [''10'', ''20'', ''30'']"
  "column_values sales_table ''date'' = [''2024-01-01'', ''2024-01-01'', ''2024-01-02'']"
  by (simp_all add: column_values_def sales_table_def row_get_def)

lemma sales_amount_info:
  "detectColumnType iso_date_parse ''amount'' [''10'', ''20'', ''30''] = amount_info"
  unfolding detectColumnType_def Let_def amount_info_def
  by (simp add: value_eval number_eval name_eval)

lemma sales_date_info:
  "detectColumnType iso_date_parse ''date'' [''2024-01-01'', ''2024-01-01'', ''2024-01-02'']
     = date_info"
  unfolding detectColumnType_def Let_def date_info_def
  by (simp add: value_eval number_eval name_eval)

lemma sales_overview_columns:
  "columns (getDataOverview iso_date_parse sales_table) = [amount_info, date_info]"
proof -
  have "analyzer.columns sales_table = [''amount'', ''date'']"
    by (simp add: sales_table_def)
  then show ?thesis
    by (simp add: getDataOverview_def Let_def sales_columns sales_amount_info sales_date_info)
qed

lemma revenue_column_infos:
  "is_revenue_column amount_info" "\<not> is_revenue_column date_info"
  by (simp_all add: is_revenue_column_def amount_info_def date_info_def name_eval)

lemma sales_revenue_columns:
  "filter is_revenue_column (columns (getDataOverview iso_date_parse sales_table)) = [amount_info]"
  by (simp add: sales_overview_columns revenue_column_infos)

lemma sales_parsed_values:
  "parsed_values sales_table ''amount'' = [Num 10, Num 20, Num 30]"
  by (simp add: parsed_values_def sales_columns parse_floats js_isNaN_def)

lemma revenue_metrics_first:
  assumes "filter is_revenue_column (columns (getDataOverview dp a)) = c # cs"
  shows "(let vals = filter (\<lambda>v. v \<noteq> NaN)
                       (map (\<lambda>r. parseFloat (row_get r (name c))) (data a));
              total = foldl js_add (Num 0) vals
          in \<lparr> label = ''Total Revenue'', value = total,
                trend = Some Up, format = Some Currency \<rparr> \<in> set (generateMetrics dp a)
             \<and> \<lparr> label = ''Average Order Value'',
                  value = (if vals = [] then Num 0
                           else js_div total (of_count (length vals))),
                  trend = None, format = Some Currency \<rparr> \<in> set (generateMetrics dp a))"
  using assms
  by (simp add: generateMetrics_def Let_def parsed_values_unfold sum_values_def)

text \<open>Counts below \<open>2^53\<close> are doubles, and so are their sums below \<open>2^53\<close>: the fold of
  \<open>+\<close> over such values is their sum.\<close>

lemma mk_num_count:
  assumes "n < 2 ^ 53"
  shows "mk_num (of_nat n) = Num (of_nat n)"
proof -
  have n: "int n < 2 ^ 53"
    using assms by (metis of_nat_less_iff of_nat_numeral of_nat_power)
  then have r: "round_double (of_int (int n)) = of_int (int n)"
    by (intro round_double_int) auto
  have "(of_int (int n) :: rat) < of_int (2 ^ 53)"
    using n by (simp only: of_int_less_iff)
  then have "(of_nat n :: rat) < 2 ^ 1024" by simp
  then show ?thesis
    using mk_num_bounded[of "of_nat n"] r by simp
qed

lemma sum_counts_exact:
  "k + sum_list ns < 2 ^ 53 \<Longrightarrow>
     foldl js_add (Num (of_nat k)) (map (\<lambda>n. Num (of_nat n)) ns) = Num (of_nat (k + sum_list ns))"
proof (induction ns arbitrary: k)
  case Nil
  then show ?case by simp
next
  case (Cons n ns)
  have "k + n < 2 ^ 53" using Cons.prems by simp
  then have "mk_num (of_nat (k + n)) = Num (of_nat (k + n))" by (rule mk_num_count)
  then have step: "js_add (Num (of_nat k)) (Num (of_nat n)) = Num (of_nat (k + n))" by simp
  have "(k + n) + sum_list ns < 2 ^ 53" using Cons.prems by (simp add: add.assoc)
  from Cons.IH[OF this]
  have rest: "foldl js_add (Num (of_nat (k + n))) (map (\<lambda>n. Num (of_nat n)) ns)
                = Num (of_nat (k + sum_list (n # ns)))"
    by (simp add: add.assoc)
  have "foldl js_add (Num (of_nat k)) (map (\<lambda>n. Num (of_nat n)) (n # ns))
          = foldl js_add (js_add (Num (of_nat k)) (Num (of_nat n))) (map (\<lambda>n. Num (of_nat n)) ns)"
    by (simp only: list.map foldl_Cons)
  then show ?case by (simp only: step rest)
qed

text \<open>What \<open>parseFloat\<close> accepts: the longest prefix that is a number, so a cell that goes
  on with other characters counts with its prefix, and \<open>Infinity\<close> counts; the classifier's
  test of a numeric value (\<open>isFinite\<close> in addition) rejects both. A decimal text beyond the
  range of doubles is an infinity, and one below it is zero. Decimal fractions are read as
  the nearest double, and their sum is rounded: 0.1 + 0.2 is not the double of 0.3.\<close>

lemma parse_float_prefix:
  "parseFloat ''12abc'' = Num 12" "\<not> is_numeric_value ''12abc''"
  "parseFloat ''Infinity'' = PInf" "\<not> is_numeric_value ''Infinity''"
  "parseFloat ''3'' = Num 3" "parseFloat ''x'' = NaN"
  by (simp_all add: parse_number_eval number_eval)

lemma parse_float_range: "parseFloat ''1e309'' = PInf" "parseFloat ''1e-400'' = Num 0"
  by (simp_all add: parse_number_eval mk_num_overflow mk_num_underflow pow2_def)

lemma parse_float_tenths:
  "parseFloat ''0.1'' = Num (3602879701896397 / 2 ^ 55)"
  "parseFloat ''0.2'' = Num (3602879701896397 / 2 ^ 54)"
  "parseFloat ''0.3'' = Num (5404319552844595 / 2 ^ 54)"
  by (simp_all add: parse_number_eval number_eval)

lemma sum_of_tenths:
  "js_add (Num (3602879701896397 / 2 ^ 55)) (Num (3602879701896397 / 2 ^ 54))
     = Num (5404319552844596 / 2 ^ 54)"
  by (simp add: number_eval)

text \<open>
  Claim C7 as the code has it (amended). When at least one column of the overview passes
  the filter of revenue columns (role \<open>revenue\<close>, or numeric with a revenue name), then
  for the first such column in column order, \<open>c\<close>, with \<open>vals\<close> the results of
  \<open>parseFloat\<close> on the column's cells that are not NaN: the metrics contain
  \<open>Total Revenue\<close>, format currency, trend up, whose value is the sum of \<open>vals\<close> taken
  from the left in double arithmetic, starting from 0; and \<open>Average Order Value\<close>, format
  currency, whose value is that total divided by the number of \<open>vals\<close> when there is one,
  and 0 when there is none. When the \<open>vals\<close> are natural numbers with a sum below \<open>2^53\<close>,
  the total is their sum and the average is the double nearest to the quotient.
\<close>

theorem revenue_metrics:
  assumes "\<exists>col \<in> set (columns (getDataOverview dp a)). is_revenue_column col"
  shows "\<exists>before c after.
           columns (getDataOverview dp a) = before @ c # after
           \<and> (\<forall>b \<in> set before. \<not> is_revenue_column b) \<and> is_revenue_column c
           \<and> (let vals = filter (\<lambda>v. v \<noteq> NaN)
                             (map (\<lambda>r. parseFloat (row_get r (name c))) (data a));
                    total = foldl js_add (Num 0) vals
                in \<lparr> label = ''Total Revenue'', value = total,
                      trend = Some Up, format = Some Currency \<rparr> \<in> set (generateMetrics dp a)
                   \<and> \<lparr> label = ''Average Order Value'',
                        value = (if vals = [] then Num 0
                                 else js_div total (of_count (length vals))),
                        trend = None, format = Some Currency \<rparr>
                       \<in> set (generateMetrics dp a)
                   \<and> (\<forall>ns. vals = map (\<lambda>n. Num (of_nat n)) ns \<and> sum_list ns < 2 ^ 53
                          \<longrightarrow> total = Num (of_nat (sum_list ns))
                              \<and> (ns \<noteq> [] \<longrightarrow>
                                    js_div total (of_count (length vals))
                                      = mk_num (of_nat (sum_list ns) / of_nat (length ns)))))"
proof -
  from assms have "filter is_revenue_column (columns (getDataOverview dp a)) \<noteq> []"
    by (simp add: filter_empty_conv)
  then obtain c cs where f: "filter is_revenue_column (columns (getDataOverview dp a)) = c # cs"
    by (cases "filter is_revenue_column (columns (getDataOverview dp a))") auto
  then obtain before after where cols:
    "columns (getDataOverview dp a) = before @ c # after"
    "\<forall>b \<in> set before. \<not> is_revenue_column b" "is_revenue_column c"
    by (auto simp: filter_eq_Cons_iff)
  define vals where "vals = filter (\<lambda>v. v \<noteq> NaN)
                             (map (\<lambda>r. parseFloat (row_get r (name c))) (data a))"
  define total where "total = foldl js_add (Num 0) vals"
  have m: "\<lparr> label = ''Total Revenue'', value = total,
              trend = Some Up, format = Some Currency \<rparr> \<in> set (generateMetrics dp a)"
      "\<lparr> label = ''Average Order Value'',
          value = (if vals = [] then Num 0 else js_div total (of_count (length vals))),
          trend = None, format = Some Currency \<rparr> \<in> set (generateMetrics dp a)"
    using revenue_metrics_first[OF f] unfolding Let_def vals_def total_def by blast+
  have e: "\<forall>ns. vals = map (\<lambda>n. Num (of_nat n)) ns \<and> sum_list ns < 2 ^ 53
             \<longrightarrow> total = Num (of_nat (sum_list ns))
                 \<and> (ns \<noteq> [] \<longrightarrow>
                       js_div total (of_count (length vals))
                         = mk_num (of_nat (sum_list ns) / of_nat (length ns)))"
  proof (intro allI impI)
    fix ns :: "nat list"
    assume h: "vals = map (\<lambda>n. Num (of_nat n)) ns \<and> sum_list ns < 2 ^ 53"
    then have "0 + sum_list ns < 2 ^ 53" by simp
    from sum_counts_exact[OF this]
    have t: "total = Num (of_nat (sum_list ns))"
      using h by (simp add: total_def)
    have l: "length vals = length ns" using h by simp
    have "ns \<noteq> [] \<longrightarrow> js_div total (of_count (length vals))
             = mk_num (of_nat (sum_list ns) / of_nat (length ns))"
      by (simp add: t l of_count_def)
    with t show "total = Num (of_nat (sum_list ns))
                 \<and> (ns \<noteq> [] \<longrightarrow>
                       js_div total (of_count (length vals))
                         = mk_num (of_nat (sum_list ns) / of_nat (length ns)))"
      by blast
  qed
  from m e have "(let vals = filter (\<lambda>v. v \<noteq> NaN)
                             (map (\<lambda>r. parseFloat (row_get r (name c))) (data a));
                    total = foldl js_add (Num 0) vals
                in \<lparr> label = ''Total Revenue'', value = total,
                      trend = Some Up, format = Some Currency \<rparr> \<in> set (generateMetrics dp a)
                   \<and> \<lparr> label = ''Average Order Value'',
                        value = (if vals = [] then Num 0
                                 else js_div total (of_count (length vals))),
                        trend = None, format = Some Currency \<rparr>
                       \<in> set (generateMetrics dp a)
                   \<and> (\<forall>ns. vals = map (\<lambda>n. Num (of_nat n)) ns \<and> sum_list ns < 2 ^ 53
                          \<longrightarrow> total = Num (of_nat (sum_list ns))
                              \<and> (ns \<noteq> [] \<longrightarrow>
                                    js_div total (of_count (length vals))
                                      = mk_num (of_nat (sum_list ns) / of_nat (length ns)))))"
    unfolding Let_def vals_def total_def by blast
  with cols show ?thesis by blast
qed

lemma amount_is_revenue: "is_revenue_column (detectColumnType dp ''amount'' values)"
  by (simp add: is_revenue_column_def detectColumnType_def Let_def name_eval)

lemma detect_name: "name (detectColumnType dp columnName values) = columnName"
  by (simp add: detectColumnType_def Let_def)

lemma amount_overview_columns:
  assumes "analyzer.columns a = [''amount'']"
  shows "columns (getDataOverview dp a)
           = [detectColumnType dp ''amount'' (column_values a ''amount'')]"
  using assms by (simp add: getDataOverview_def Let_def)

lemma tenths_values:
  "filter (\<lambda>v. v \<noteq> NaN) (map (\<lambda>r. parseFloat (row_get r ''amount'')) (data tenths_table))
     = [Num (3602879701896397 / 2 ^ 55), Num (3602879701896397 / 2 ^ 54)]"
  by (simp add: tenths_table_def row_get_def parse_float_tenths)

lemma tenths_total:
  "foldl js_add (Num 0) [Num (3602879701896397 / 2 ^ 55), Num (3602879701896397 / 2 ^ 54)]
     = Num (5404319552844596 / 2 ^ 54)"
  by (simp add: number_eval)

theorem revenue_metrics_witness:
  "amount_info \<in> set (columns (getDataOverview iso_date_parse sales_table))
   \<and> is_revenue_column amount_info
   \<and> \<lparr> label = ''Total Revenue'', value = Num 60, trend = Some Up, format = Some Currency \<rparr>
       \<in> set (generateMetrics iso_date_parse sales_table)
   \<and> \<lparr> label = ''Average Order Value'', value = Num 20, trend = None,
         format = Some Currency \<rparr>
       \<in> set (generateMetrics iso_date_parse sales_table)
   \<and> \<lparr> label = ''Total Revenue'', value = Num (5404319552844596 / 2 ^ 54),
         trend = Some Up, format = Some Currency \<rparr>
       \<in> set (generateMetrics iso_date_parse tenths_table)"
proof -
  have mem: "amount_info \<in> set (columns (getDataOverview iso_date_parse sales_table))"
    by (simp add: sales_overview_columns)
  have rev: "is_revenue_column amount_info" by (rule revenue_column_infos(1))
  from mem rev
  have ex: "\<exists>col \<in> set (columns (getDataOverview iso_date_parse sales_table)).
              is_revenue_column col"
    by blast
  from revenue_metrics [OF ex] obtain before c after where
    cols: "columns (getDataOverview iso_date_parse sales_table) = before @ c # after"
    and first: "\<forall>b \<in> set before. \<not> is_revenue_column b"
    and m: "(let vals = filter (\<lambda>v. v \<noteq> NaN)
                         (map (\<lambda>r. parseFloat (row_get r (name c))) (data sales_table));
                total = foldl js_add (Num 0) vals
            in \<lparr> label = ''Total Revenue'', value = total,
                  trend = Some Up, format = Some Currency \<rparr>
                 \<in> set (generateMetrics iso_date_parse sales_table)
               \<and> \<lparr> label = ''Average Order Value'',
                    value = (if vals = [] then Num 0
                             else js_div total (of_count (length vals))),
                    trend = None, format = Some Currency \<rparr>
                   \<in> set (generateMetrics iso_date_parse sales_table)
               \<and> (\<forall>ns. vals = map (\<lambda>n. Num (of_nat n)) ns \<and> sum_list ns < 2 ^ 53
                      \<longrightarrow> total = Num (of_nat (sum_list ns))
                          \<and> (ns \<noteq> [] \<longrightarrow>
                                js_div total (of_count (length vals))
                                  = mk_num (of_nat (sum_list ns) / of_nat (length ns)))))"
    by blast
  have c: "c = amount_info"
  proof (cases before)
    case Nil
    with cols show ?thesis by (simp add: sales_overview_columns)
  next
    case (Cons b bs)
    with cols have "b = amount_info" by (simp add: sales_overview_columns)
    with first Cons rev show ?thesis by simp
  qed
  define vals where "vals = filter (\<lambda>v. v \<noteq> NaN)
      (map (\<lambda>r. parseFloat (row_get r (name amount_info))) (data sales_table))"
  define total where "total = foldl js_add (Num 0) vals"
  have n: "name amount_info = ''amount''" by (simp add: amount_info_def)
  have v: "vals = map (\<lambda>n. Num (of_nat n)) [10, 20, 30]"
    using sales_parsed_values by (simp add: vals_def parsed_values_unfold n)
  have ne: "vals \<noteq> []" by (simp add: v)
  from m have t: "\<lparr> label = ''Total Revenue'', value = total,
                     trend = Some Up, format = Some Currency \<rparr>
                   \<in> set (generateMetrics iso_date_parse sales_table)"
    and a: "\<lparr> label = ''Average Order Value'',
                value = (if vals = [] then Num 0 else js_div total (of_count (length vals))),
                trend = None, format = Some Currency \<rparr>
              \<in> set (generateMetrics iso_date_parse sales_table)"
    and e: "\<forall>ns. vals = map (\<lambda>n. Num (of_nat n)) ns \<and> sum_list ns < 2 ^ 53
              \<longrightarrow> total = Num (of_nat (sum_list ns))
                  \<and> (ns \<noteq> [] \<longrightarrow>
                        js_div total (of_count (length vals))
                          = mk_num (of_nat (sum_list ns) / of_nat (length ns)))"
    unfolding c Let_def vals_def[symmetric] total_def[symmetric] by blast+
  have "sum_list [10, 20, 30] < (2::nat) ^ 53" by simp
  with e v have "total = Num (of_nat (sum_list [10, 20, 30]))"
    and "js_div total (of_count (length vals))
           = mk_num (of_nat (sum_list [10, 20, 30]) / of_nat (length [10, 20, 30 :: nat]))"
    by blast+
  then have t60: "total = Num 60" and "js_div total (of_count (length vals)) = Num 20"
    by (simp_all add: number_eval)
  then have a20: "js_div (Num 60) (of_count (length vals)) = Num 20"
    by (simp only:)
  have s: "\<lparr> label = ''Total Revenue'', value = Num 60, trend = Some Up,
               format = Some Currency \<rparr>
             \<in> set (generateMetrics iso_date_parse sales_table)"
      "\<lparr> label = ''Average Order Value'', value = Num 20, trend = None,
          format = Some Currency \<rparr>
        \<in> set (generateMetrics iso_date_parse sales_table)"
    using t a ne by (simp_all only: t60 a20 if_False)
  have tc: "analyzer.columns tenths_table = [''amount'']"
    by (simp add: tenths_table_def)
  have ex': "\<exists>col \<in> set (columns (getDataOverview iso_date_parse tenths_table)).
               is_revenue_column col"
    by (simp add: amount_overview_columns[OF tc] amount_is_revenue)
  from revenue_metrics [OF ex'] obtain before' c' after' where
    cols': "columns (getDataOverview iso_date_parse tenths_table) = before' @ c' # after'"
    and m': "(let vals = filter (\<lambda>v. v \<noteq> NaN)
                         (map (\<lambda>r. parseFloat (row_get r (name c'))) (data tenths_table));
                total = foldl js_add (Num 0) vals
            in \<lparr> label = ''Total Revenue'', value = total,
                  trend = Some Up, format = Some Currency \<rparr>
                 \<in> set (generateMetrics iso_date_parse tenths_table)
               \<and> \<lparr> label = ''Average Order Value'',
                    value = (if vals = [] then Num 0
                             else js_div total (of_count (length vals))),
                    trend = None, format = Some Currency \<rparr>
                   \<in> set (generateMetrics iso_date_parse tenths_table)
               \<and> (\<forall>ns. vals = map (\<lambda>n. Num (of_nat n)) ns \<and> sum_list ns < 2 ^ 53
                      \<longrightarrow> total = Num (of_nat (sum_list ns))
                          \<and> (ns \<noteq> [] \<longrightarrow>
                                js_div total (of_count (length vals))
                                  = mk_num (of_nat (sum_list ns) / of_nat (length ns)))))"
    by blast
  from cols' have "c' = detectColumnType iso_date_parse ''amount''
                          (column_values tenths_table ''amount'')"
    unfolding amount_overview_columns[OF tc] by (simp add: Cons_eq_append_conv)
  then have n': "name c' = ''amount''" by (simp add: detect_name)
  from m' have "\<lparr> label = ''Total Revenue'', value = Num (5404319552844596 / 2 ^ 54),
                   trend = Some Up, format = Some Currency \<rparr>
                 \<in> set (generateMetrics iso_date_parse tenths_table)"
    unfolding Let_def n' tenths_values tenths_total by blast
  with mem rev s show ?thesis by blast
qed

text \<open>
  Claim C7 as stated fails in two places. In \<open>none_table\<close> the revenue column \<open>amount\<close>
  has no cell that parses: the sum is 0 and the count is 0, the sum divided by the count is
  NaN, and the metric \<open>Average Order Value\<close> is 0. In \<open>prefix_table\<close> the cell \<open>12abc\<close> is
  no numeric value for the classifier, and it contributes 12 to the total and 1 to the
  count: the total is 15 and the average 7.5.
\<close>

theorem revenue_parse_counterexample:
  "parseCSV none_text = Inr none_table
   \<and> is_revenue_column (hd (columns (getDataOverview iso_date_parse none_table)))
   \<and> parsed_values none_table ''amount'' = []
   \<and> js_div (sum_values []) (of_count (length ([] :: jsnum list))) = NaN
   \<and> \<lparr> label = ''Average Order Value'', value = Num 0, trend = None,
         format = Some Currency \<rparr>
       \<in> set (generateMetrics iso_date_parse none_table)
   \<and> parseCSV prefix_text = Inr prefix_table
   \<and> is_revenue_column (hd (columns (getDataOverview iso_date_parse prefix_table)))
   \<and> \<not> is_numeric_value ''12abc''
   \<and> \<lparr> label = ''Total Revenue'', value = Num 15, trend = Some Up, format = Some Currency \<rparr>
       \<in> set (generateMetrics iso_date_parse prefix_table)
   \<and> \<lparr> label = ''Average Order Value'', value = Num (15 / 2), trend = None,
         format = Some Currency \<rparr>
       \<in> set (generateMetrics iso_date_parse prefix_table)"
proof -
  have nc: "analyzer.columns none_table = [''amount'']"
    by (simp add: none_table_def)
  have pc: "analyzer.columns prefix_table = [''amount'']"
    by (simp add: prefix_table_def)
  have r1: "is_revenue_column (hd (columns (getDataOverview iso_date_parse none_table)))"
    by (simp add: amount_overview_columns[OF nc] amount_is_revenue)
  have r2: "is_revenue_column (hd (columns (getDataOverview iso_date_parse prefix_table)))"
    by (simp add: amount_overview_columns[OF pc] amount_is_revenue)
  have f1: "filter is_revenue_column (columns (getDataOverview iso_date_parse none_table))
              = [detectColumnType iso_date_parse ''amount'' (column_values none_table ''amount'')]"
    by (simp add: amount_overview_columns[OF nc] amount_is_revenue)
  have f2: "filter is_revenue_column (columns (getDataOverview iso_date_parse prefix_table))
              = [detectColumnType iso_date_parse ''amount''
                   (column_values prefix_table ''amount'')]"
    by (simp add: amount_overview_columns[OF pc] amount_is_revenue)
  have v1: "filter (\<lambda>v. v \<noteq> NaN)
              (map (\<lambda>r. parseFloat (row_get r ''amount'')) (data none_table)) = []"
    by (simp add: none_table_def row_get_def parse_float_prefix)
  have v2: "filter (\<lambda>v. v \<noteq> NaN)
              (map (\<lambda>r. parseFloat (row_get r ''amount'')) (data prefix_table))
              = [Num 12, Num 3]"
    by (simp add: prefix_table_def row_get_def parse_float_prefix)
  have p: "parsed_values none_table ''amount'' = []"
    by (simp only: parsed_values_unfold v1)
  have d: "js_div (sum_values []) (of_count (length ([] :: jsnum list))) = NaN"
    by (simp add: sum_values_def number_eval)
  have t: "foldl js_add (Num 0) [Num 12, Num 3] = Num 15"
    by (simp add: number_eval)
  have q: "js_div (Num 15) (of_count (length [Num 12, Num 3])) = Num (15 / 2)"
    by (simp add: number_eval)
  have a1: "\<lparr> label = ''Average Order Value'', value = Num 0, trend = None,
               format = Some Currency \<rparr>
             \<in> set (generateMetrics iso_date_parse none_table)"
    using revenue_metrics_first[OF f1] unfolding Let_def detect_name v1 by simp
  have a2: "\<lparr> label = ''Total Revenue'', value = Num 15, trend = Some Up,
               format = Some Currency \<rparr>
             \<in> set (generateMetrics iso_date_parse prefix_table)"
       "\<lparr> label = ''Average Order Value'', value = Num (15 / 2), trend = None,
           format = Some Currency \<rparr>
         \<in> set (generateMetrics iso_date_parse prefix_table)"
    using revenue_metrics_first[OF f2] unfolding Let_def detect_name v2 t q by simp_all
  from parse_none r1 p d a1 parse_prefix r2 parse_float_prefix(2) a2
  show ?thesis by blast
qed

subsection \<open>The charts\<close>

text \<open>
  The histogram when the bin width is a finite positive number: every value falls into
  one of the ten bins, and the counts sum to the number of values. (The bin width is 0
  when all values are equal or a tenth of their range rounds to 0, and infinite when the
  range overflows.)
\<close>

lemma Math_min2_Num: "Math_min2 (Num a) (Num b) = Num (min a b)"
  by (auto simp: Math_min2_def min_def)

lemma Math_max2_Num: "Math_max2 (Num a) (Num b) = Num (max a b)"
  by (auto simp: Math_max2_def max_def)

lemma foldl_Math_min2:
  "foldl Math_min2 (Num k) (map Num rs) = Num (Min (insert k (set rs)))"
proof (induction rs arbitrary: k)
  case Nil
  then show ?case by simp
next
  case (Cons r rs)
  have "Min (insert (min k r) (set rs)) = Min (insert k (insert r (set rs)))"
    by (cases "set rs = {}") (auto simp: min.assoc)
  then show ?case
    using Cons.IH[of "min k r"] by (simp add: Math_min2_Num)
qed

lemma foldl_Math_max2:
  "foldl Math_max2 (Num k) (map Num rs) = Num (Max (insert k (set rs)))"
proof (induction rs arbitrary: k)
  case Nil
  then show ?case by simp
next
  case (Cons r rs)
  have "Max (insert (max k r) (set rs)) = Max (insert k (insert r (set rs)))"
    by (cases "set rs = {}") (auto simp: max.assoc)
  then show ?case
    using Cons.IH[of "max k r"] by (simp add: Math_max2_Num)
qed

lemma Math_min_Num: "rs \<noteq> [] \<Longrightarrow> Math_min (map Num rs) = Num (Min (set rs))"
proof (cases rs)
  case Nil
  then show "rs \<noteq> [] \<Longrightarrow> ?thesis" by simp
next
  case (Cons r rs')
  have "Math_min2 PInf (Num r) = Num r" by (simp add: Math_min2_def)
  then show ?thesis
    using Cons foldl_Math_min2[of r rs'] by (simp add: Math_min_def)
qed

lemma Math_max_Num: "rs \<noteq> [] \<Longrightarrow> Math_max (map Num rs) = Num (Max (set rs))"
proof (cases rs)
  case Nil
  then show "rs \<noteq> [] \<Longrightarrow> ?thesis" by simp
next
  case (Cons r rs')
  have "Math_max2 NInf (Num r) = Num r" by (simp add: Math_max2_def)
  then show ?thesis
    using Cons foldl_Math_max2[of r rs'] by (simp add: Math_max_def)
qed

lemma mk_num_nonneg:
  assumes "0 \<le> r"
  shows "mk_num r = PInf \<or> (\<exists>v. mk_num r = Num v \<and> 0 \<le> v)"
proof -
  have "0 \<le> round_double r" using assms by (rule round_double_nonneg)
  then show ?thesis by (auto simp: mk_num_def Let_def)
qed

lemma bin_index_in_range:
  assumes "lo \<le> r" and "0 < b"
  shows "\<exists>j. 0 \<le> j \<and> j \<le> 9
           \<and> Math_min2 (Math_floor (js_div (js_sub (Num r) (Num lo)) (Num b)))
                       (js_sub (of_count 10) (Num 1)) = Num (of_int j)"
proof -
  have nine: "js_sub (of_count 10) (Num 1) = Num 9"
    by (simp add: number_eval)
  have inf: "Math_min2 (Math_floor PInf) (Num 9) = Num (of_int 9)"
    by (simp add: Math_min2_def)
  have fin: "\<exists>j. 0 \<le> j \<and> j \<le> 9 \<and> Math_min2 (Math_floor (Num y)) (Num 9) = Num (of_int j)"
    if "0 \<le> y" for y
  proof -
    have "Math_min2 (Math_floor (Num y)) (Num 9) = Num (min (of_int \<lfloor>y\<rfloor>) 9)"
      by (simp only: Math_floor.simps Math_min2_Num)
    also have "min (of_int \<lfloor>y\<rfloor>) (9::rat) = of_int (min \<lfloor>y\<rfloor> 9)"
      by (simp add: min_def)
    finally have "Math_min2 (Math_floor (Num y)) (Num 9) = Num (of_int (min \<lfloor>y\<rfloor> 9))" .
    moreover have "0 \<le> min \<lfloor>y\<rfloor> 9" "min \<lfloor>y\<rfloor> 9 \<le> 9" using that by simp_all
    ultimately show ?thesis by blast
  qed
  have quot: "\<exists>j. 0 \<le> j \<and> j \<le> 9
                 \<and> Math_min2 (Math_floor (js_div (Num x) (Num b))) (Num 9) = Num (of_int j)"
    if "0 \<le> x" for x
  proof -
    have d: "js_div (Num x) (Num b) = mk_num (x / b)" using assms(2) by simp
    have "0 \<le> x / b" using that assms(2) by simp
    then consider "mk_num (x / b) = PInf" | y where "mk_num (x / b) = Num y" "0 \<le> y"
      using mk_num_nonneg by blast
    then show ?thesis
    proof cases
      case 1
      then show ?thesis unfolding d using inf by fastforce
    next
      case 2
      then show ?thesis unfolding d using fin by simp
    qed
  qed
  have "0 \<le> r - lo" using assms(1) by simp
  then consider "js_sub (Num r) (Num lo) = PInf"
    | x where "js_sub (Num r) (Num lo) = Num x" "0 \<le> x"
    using mk_num_nonneg[of "r - lo"] by (auto simp: js_sub_def)
  then show ?thesis
  proof cases
    case 1
    have "js_div PInf (Num b) = PInf" using assms(2) by (simp add: inf_of_sign_def)
    then show ?thesis unfolding nine 1 using inf by fastforce
  next
    case 2
    then show ?thesis unfolding nine using quot by simp
  qed
qed

lemma increment_bin_in_range:
  assumes "0 \<le> j" and "nat j < length bins"
  shows "increment_bin bins (Num (of_int j)) = bins[nat j := bins ! nat j + 1]"
  using assms by (simp add: increment_bin_def)

lemma sum_list_increment:
  fixes bins :: "nat list"
  shows "i < length bins \<Longrightarrow> sum_list (bins[i := bins ! i + 1]) = sum_list bins + 1"
  by (simp add: sum_list_update)

lemma histogram_fold:
  assumes "\<forall>r \<in> set rs. lo \<le> r" and "0 < b" and "length bins = 10"
  shows "length (foldl (\<lambda>bins value.
                   increment_bin bins
                     (Math_min2 (Math_floor (js_div (js_sub value (Num lo)) (Num b)))
                                (js_sub (of_count 10) (Num 1))))
                 bins (map Num rs)) = 10
         \<and> sum_list (foldl (\<lambda>bins value.
                   increment_bin bins
                     (Math_min2 (Math_floor (js_div (js_sub value (Num lo)) (Num b)))
                                (js_sub (of_count 10) (Num 1))))
                 bins (map Num rs)) = sum_list bins + length rs"
  using assms
proof (induction rs arbitrary: bins)
  case Nil
  then show ?case by simp
next
  case (Cons r rs)
  have "lo \<le> r" using Cons.prems(1) by simp
  from bin_index_in_range[OF this Cons.prems(2)] obtain j where
    j0: "0 \<le> j" and j9: "j \<le> 9"
    and idx: "Math_min2 (Math_floor (js_div (js_sub (Num r) (Num lo)) (Num b)))
                        (js_sub (of_count 10) (Num 1)) = Num (of_int j)"
    by blast
  have jl: "nat j < length bins" using Cons.prems(3) j0 j9 by simp
  define bins' where "bins' = bins[nat j := bins ! nat j + 1]"
  have step: "increment_bin bins (Num (of_int j)) = bins'"
    unfolding bins'_def using j0 jl by (rule increment_bin_in_range)
  have len: "length bins' = 10" using Cons.prems(3) by (simp add: bins'_def)
  have sm: "sum_list bins' = sum_list bins + 1"
    unfolding bins'_def using jl by (rule sum_list_increment)
  have rest: "\<forall>r \<in> set rs. lo \<le> r"
    using Cons.prems(1) by simp
  from Cons.IH[OF rest Cons.prems(2) len]
  show ?case by (simp add: idx step sm)
qed

lemma histogram_counts_sum:
  assumes "rs \<noteq> []"
    and "js_div (js_sub (Math_max (map Num rs)) (Math_min (map Num rs))) (of_count 10) = Num b"
    and "0 < b"
  shows "length (snd (createHistogramBins (map Num rs) 10)) = 10
         \<and> sum_list (snd (createHistogramBins (map Num rs) 10)) = length rs"
proof -
  define lo where "lo = Min (set rs)"
  have fin: "finite (set rs)" "set rs \<noteq> {}" using assms(1) by auto
  have bounds: "\<forall>r \<in> set rs. lo \<le> r"
    using fin by (auto simp: lo_def)
  have mn: "Math_min (map Num rs) = Num lo"
    unfolding lo_def using assms(1) by (rule Math_min_Num)
  have bs: "js_div (js_sub (Math_max (map Num rs)) (Num lo)) (of_count 10) = Num b"
    using assms(2) by (simp only: mn)
  have "snd (createHistogramBins (map Num rs) 10)
        = foldl (\<lambda>bins value.
                   increment_bin bins
                     (Math_min2 (Math_floor (js_div (js_sub value (Num lo)) (Num b)))
                                (js_sub (of_count 10) (Num 1))))
                 (replicate 10 0) (map Num rs)"
    unfolding createHistogramBins_def Let_def mn bs by simp
  then show ?thesis
    using histogram_fold[OF bounds assms(3), of "replicate 10 0"] by simp
qed

text \<open>The histogram of the amounts 10, 20 and 30: the bin width is 2, and the greatest
  value, whose quotient is 10, is counted in the last bin.\<close>

lemma histogram_sales:
  "snd (createHistogramBins [Num 10, Num 20, Num 30] 10) = [1, 0, 0, 0, 0, 1, 0, 0, 0, 1]"
proof -
  have b: "Math_min [Num 10, Num 20, Num 30] = Num 10"
      "Math_max [Num 10, Num 20, Num 30] = Num 30"
    by (simp_all add: Math_min_def Math_max_def Math_min2_def Math_max2_def)
  have w: "js_div (js_sub (Num 30) (Num 10)) (of_count 10) = Num 2"
      "js_sub (of_count 10) (Num 1) = Num 9"
    by (simp_all add: number_eval)
  have i: "Math_min2 (Math_floor (js_div (js_sub (Num 10) (Num 10)) (Num 2))) (Num 9) = Num 0"
      "Math_min2 (Math_floor (js_div (js_sub (Num 20) (Num 10)) (Num 2))) (Num 9) = Num 5"
      "Math_min2 (Math_floor (js_div (js_sub (Num 30) (Num 10)) (Num 2))) (Num 9) = Num 9"
    by (simp_all add: number_eval)
  have c: "increment_bin (replicate 10 0) (Num 0) = [1, 0, 0, 0, 0, 0, 0, 0, 0, 0]"
      "increment_bin [1, 0, 0, 0, 0, 0, 0, 0, 0, 0] (Num 5) = [1, 0, 0, 0, 0, 1, 0, 0, 0, 0]"
      "increment_bin [1, 0, 0, 0, 0, 1, 0, 0, 0, 0] (Num 9) = [1, 0, 0, 0, 0, 1, 0, 0, 0, 1]"
    by (simp_all add: increment_bin_def numeral_eq_Suc)
  show ?thesis
    unfolding createHistogramBins_def Let_def b w
    by (simp only: snd_conv foldl.simps i c)
qed

text \<open>The histogram of no value: ten empty bins.\<close>

lemma histogram_empty: "snd (createHistogramBins [] 10) = replicate 10 0"
  by (simp add: createHistogramBins_def Let_def)

text \<open>The histogram of two equal values.\<close>

lemma histogram_equal:
  "createHistogramBins [Num 5, Num 5] 10
     = (replicate 10 (Range (Num 5) (Num 5)), replicate 10 0)"
  unfolding createHistogramBins_def Let_def
  by (simp add: number_eval increment_bin_def map_replicate_const)

lemma equal_overview_columns:
  "columns (getDataOverview iso_date_parse equal_table)
     = [\<lparr> name = ''amount'', type = Numeric, uniqueValues = 1, nullCount = 0,
           isBusinessRelevant = True, businessType = Some Revenue \<rparr>]"
proof -
  have c: "column_values equal_table ''amount'' = [''5'', ''5'']"
    by (simp add: column_values_def equal_table_def row_get_def)
  have d: "detectColumnType iso_date_parse ''amount'' [''5'', ''5'']
     = \<lparr> name = ''amount'', type = Numeric, uniqueValues = 1, nullCount = 0,
           isBusinessRelevant = True, businessType = Some Revenue \<rparr>"
    unfolding detectColumnType_def Let_def
    by (simp add: value_eval number_eval name_eval)
  have "analyzer.columns equal_table = [''amount'']"
    by (simp add: equal_table_def)
  then show ?thesis
    by (simp add: getDataOverview_def Let_def c d)
qed

text \<open>
  Claim C5, evaluated where the code departs from it. In the table \<open>equal_table\<close> both
  cells of \<open>amount\<close> parse, to 5 and 5. The bin width is 0, the bin index of each value is
  \<open>0 / 0\<close>, that is NaN, and no bin is incremented: the ten counts of the distribution
  chart are all 0, with two parsed values.
\<close>

theorem histogram_equal_values_lost:
  "parseCSV equal_text = Inr equal_table
   \<and> parsed_values equal_table ''amount'' = [Num 5, Num 5]
   \<and> generateCharts iso_date_parse equal_table
       = Inr [\<lparr> ctype = Bar, title = ''amount Distribution'',
                 labels = replicate 10 (Range (Num 5) (Num 5)), series = Some ''amount'',
                 points = replicate 10 (Num 0) \<rparr>]"
proof -
  have c: "column_values equal_table ''amount'' = [''5'', ''5'']"
    by (simp add: column_values_def equal_table_def row_get_def)
  have p: "parsed_values equal_table ''amount'' = [Num 5, Num 5]"
    by (simp add: parsed_values_def c parse_floats js_isNaN_def)
  have g: "generateCharts iso_date_parse equal_table
       = Inr [\<lparr> ctype = Bar, title = ''amount Distribution'',
                 labels = replicate 10 (Range (Num 5) (Num 5)), series = Some ''amount'',
                 points = replicate 10 (Num 0) \<rparr>]"
    unfolding generateCharts_def Let_def equal_overview_columns
    by (simp add: is_revenue_column_def is_category_column_def is_date_column_def
        trend_chart_def revenue_chart_def category_chart_def p histogram_equal of_count_def)
  from parse_equal p g show ?thesis by blast
qed

lemma sorted_day_keys: "sort [''2024-01-01'', ''2024-01-02''] = [''2024-01-01'', ''2024-01-02'']"
  by simp

lemma date_column_infos:
  "\<not> is_date_column amount_info" "is_date_column date_info"
  by (simp_all add: is_date_column_def amount_info_def date_info_def)

lemma sales_time_series:
  "time_series iso_date_parse ''date'' ''amount'' (data sales_table) []
     = Inr [(''2024-01-01'', Num 30), (''2024-01-02'', Num 30)]"
  by (simp add: sales_table_def row_get_def day_keys parse_floats js_isNaN_def
      or_zero_def number_eval Let_def)

lemma revenue_trend_example:
  "trend_chart iso_date_parse sales_table
     (filter is_date_column (columns (getDataOverview iso_date_parse sales_table)))
     (filter is_revenue_column (columns (getDataOverview iso_date_parse sales_table)))
   = Inr [\<lparr> ctype = Line, title = ''Revenue Trend Over Time'',
              labels = [Text ''2024-01-01'', Text ''2024-01-02''],
              series = Some ''Daily Revenue'',
              points = [Num 30, Num 30] \<rparr>]"
proof -
  have n: "name date_info = ''date''" "name amount_info = ''amount''"
    by (simp_all add: date_info_def amount_info_def)
  show ?thesis
    unfolding sales_overview_columns
    by (simp add: date_column_infos revenue_column_infos trend_chart_def n sales_time_series
        sorted_day_keys time_value_def)
qed

lemma short_row_overview_columns:
  "columns (getDataOverview iso_date_parse short_row_table)
     = [\<lparr> name = ''amount'', type = Numeric, uniqueValues = 1, nullCount = 0,
           isBusinessRelevant = True, businessType = Some Revenue \<rparr>,
        \<lparr> name = ''date'', type = Categorical, uniqueValues = 0, nullCount = 1,
           isBusinessRelevant = True, businessType = Some Date \<rparr>]"
proof -
  have c: "column_values short_row_table ''amount'' = [''10'']"
       "column_values short_row_table ''date'' = [[]]"
    by (simp_all add: column_values_def short_row_table_def row_get_def)
  have d1: "detectColumnType iso_date_parse ''amount'' [''10'']
     = \<lparr> name = ''amount'', type = Numeric, uniqueValues = 1, nullCount = 0,
           isBusinessRelevant = True, businessType = Some Revenue \<rparr>"
    unfolding detectColumnType_def Let_def
    by (simp add: value_eval number_eval name_eval)
  have d2: "detectColumnType iso_date_parse ''date'' [[]]
     = \<lparr> name = ''date'', type = Categorical, uniqueValues = 0, nullCount = 1,
           isBusinessRelevant = True, businessType = Some Date \<rparr>"
    unfolding detectColumnType_def Let_def
    by (simp add: value_eval number_eval name_eval)
  have "analyzer.columns short_row_table = [''amount'', ''date'']"
    by (simp add: short_row_table_def)
  then show ?thesis
    by (simp add: getDataOverview_def Let_def c d1 d2)
qed

lemma short_row_charts: "generateCharts iso_date_parse short_row_table = Inl RangeError"
proof -
  have k: "day_key iso_date_parse [] = Inl RangeError"
    by (simp add: day_key_def value_eval)
  have t: "time_series iso_date_parse ''date'' ''amount'' (data short_row_table) []
             = Inl RangeError"
    by (simp add: short_row_table_def row_get_def k)
  show ?thesis
    unfolding generateCharts_def Let_def short_row_overview_columns
    by (simp add: is_revenue_column_def is_category_column_def is_date_column_def
        trend_chart_def t)
qed

text \<open>
  Claim C1, evaluated where the code departs from it. The text \<open>short_row_text\<close> has a
  header and one data row; the row is shorter than the header, so its \<open>date\<close> cell is
  padded with the empty text, \<open>toISOString\<close> throws on it, and the analysis ends with a
  RangeError instead of a result.
\<close>

theorem short_row_raises: "analyze iso_date_parse short_row_text = Inl RangeError"
  by (simp add: analyze_def parse_short_row performCompleteAnalysis_def short_row_charts)

lemma bad_date_overview_columns:
  "columns (getDataOverview iso_date_parse bad_date_table)
     = [\<lparr> name = ''amount'', type = Numeric, uniqueValues = 2, nullCount = 0,
           isBusinessRelevant = True, businessType = Some Revenue \<rparr>,
        \<lparr> name = ''date'', type = Categorical, uniqueValues = 2, nullCount = 0,
           isBusinessRelevant = True, businessType = Some Date \<rparr>]"
proof -
  have c: "column_values bad_date_table ''amount'' = [''10'', ''20'']"
       "column_values bad_date_table ''date'' = [''2024-01-01'', ''unknown'']"
    by (simp_all add: column_values_def bad_date_table_def row_get_def)
  have u: "iso_date_parse ''unknown'' = None" "\<not> is_numeric_value ''unknown''"
    by (simp_all add: iso_date_parse_def parse_number_eval number_eval)
  have d1: "detectColumnType iso_date_parse ''amount'' [''10'', ''20'']
     = \<lparr> name = ''amount'', type = Numeric, uniqueValues = 2, nullCount = 0,
           isBusinessRelevant = True, businessType = Some Revenue \<rparr>"
    unfolding detectColumnType_def Let_def
    by (simp add: value_eval number_eval name_eval)
  have d2: "detectColumnType iso_date_parse ''date'' [''2024-01-01'', ''unknown'']
     = \<lparr> name = ''date'', type = Categorical, uniqueValues = 2, nullCount = 0,
           isBusinessRelevant = True, businessType = Some Date \<rparr>"
    unfolding detectColumnType_def Let_def
    by (simp add: value_eval number_eval name_eval u)
  have "analyzer.columns bad_date_table = [''amount'', ''date'']"
    by (simp add: bad_date_table_def)
  then show ?thesis
    by (simp add: getDataOverview_def Let_def c d1 d2)
qed

text \<open>
  Claim C2, evaluated where the code departs from it. In \<open>bad_date_text\<close> the second
  row's date does not parse. The row is not skipped: the time series raises a RangeError,
  so no chart and no analysis result is produced.
\<close>

theorem unparseable_date_raises:
  "parseCSV bad_date_text = Inr bad_date_table
   \<and> generateCharts iso_date_parse bad_date_table = Inl RangeError
   \<and> analyze iso_date_parse bad_date_text = Inl RangeError"
proof -
  have t: "time_series iso_date_parse ''date'' ''amount'' (data bad_date_table) []
             = Inl RangeError"
    by (simp add: bad_date_table_def row_get_def day_keys parse_floats js_isNaN_def
        or_zero_def number_eval)
  have g: "generateCharts iso_date_parse bad_date_table = Inl RangeError"
    unfolding generateCharts_def Let_def bad_date_overview_columns
    by (simp add: is_revenue_column_def is_category_column_def is_date_column_def
        trend_chart_def t)
  then have "analyze iso_date_parse bad_date_text = Inl RangeError"
    by (simp add: analyze_def parse_bad_date performCompleteAnalysis_def)
  with parse_bad_date g show ?thesis by blast
qed

subsection \<open>When the analysis fails\<close>

text \<open>
  The analysis fails with \<open>MalformedInput\<close> exactly when the trimmed text has fewer than
  two lines. For a parsed table every failure is a RangeError, and the time series raises
  one as soon as a date column and a revenue column exist and the date cell of some row is
  no valid date.
\<close>

lemma day_key_error: "day_key dp text = Inl e \<Longrightarrow> e = RangeError"
  by (auto simp: day_key_def split: option.splits if_splits)

lemma time_series_fails_iff:
  "(time_series dp dateName revenueName rows timeData = Inl RangeError)
     \<longleftrightarrow> (\<exists>r \<in> set rows. day_key dp (row_get r dateName) = Inl RangeError)"
proof (induction rows arbitrary: timeData)
  case Nil
  then show ?case by simp
next
  case (Cons r rows)
  show ?case
  proof (cases "day_key dp (row_get r dateName)")
    case (Inl e)
    then have "e = RangeError" by (rule day_key_error)
    with Inl show ?thesis by simp
  next
    case (Inr date)
    then show ?thesis
      using Cons.IH by (simp add: Let_def)
  qed
qed

lemma time_series_error:
  "time_series dp dateName revenueName rows timeData = Inl e \<Longrightarrow> e = RangeError"
proof (induction rows arbitrary: timeData)
  case Nil
  then show ?case by simp
next
  case (Cons r rows)
  show ?case
  proof (cases "day_key dp (row_get r dateName)")
    case (Inl e')
    with Cons.prems have "e = e'" by simp
    with Inl show ?thesis using day_key_error by blast
  next
    case (Inr date)
    with Cons.prems show ?thesis
      using Cons.IH by (simp add: Let_def split: if_splits)
  qed
qed

lemma generateCharts_date_failure:
  assumes "filter is_date_column (columns (getDataOverview dp a)) = d # ds"
    and "filter is_revenue_column (columns (getDataOverview dp a)) \<noteq> []"
    and "r \<in> set (data a)"
    and "day_key dp (row_get r (name d)) = Inl RangeError"
  shows "generateCharts dp a = Inl RangeError"
proof -
  define revenueColumns
    where "revenueColumns = filter is_revenue_column (columns (getDataOverview dp a))"
  have "time_series dp (name d) (name (hd revenueColumns)) (data a) [] = Inl RangeError"
    using assms(3,4) by (auto simp: time_series_fails_iff)
  then have "trend_chart dp a (d # ds) revenueColumns = Inl RangeError"
    using assms(2) by (simp add: trend_chart_def revenueColumns_def)
  then show ?thesis
    by (simp add: generateCharts_def Let_def assms(1) revenueColumns_def)
qed

lemma generateCharts_error:
  "generateCharts dp a = Inl e \<Longrightarrow> e = RangeError"
proof -
  assume g: "generateCharts dp a = Inl e"
  then have "trend_chart dp a (filter is_date_column (columns (getDataOverview dp a)))
                (filter is_revenue_column (columns (getDataOverview dp a))) = Inl e"
    by (auto simp: generateCharts_def Let_def split: sum.splits)
  then show ?thesis
    using time_series_error
    by (auto simp: trend_chart_def Let_def split: sum.splits if_splits)
qed

lemma analyze_malformed_iff:
  "analyze dp rawText = Inl MalformedInput \<longleftrightarrow> length (js_split nl (js_trim rawText)) < 2"
proof (cases "length (js_split nl (js_trim rawText)) < 2")
  case True
  then show ?thesis by (simp add: analyze_def parseCSV_def Let_def)
next
  case False
  then obtain a where a: "parseCSV rawText = Inr a"
    by (simp add: parseCSV_def Let_def)
  have "analyze dp rawText \<noteq> Inl MalformedInput"
  proof
    assume "analyze dp rawText = Inl MalformedInput"
    then have "generateCharts dp a = Inl MalformedInput"
      using a by (auto simp: analyze_def performCompleteAnalysis_def split: sum.splits)
    then show False using generateCharts_error by fastforce
  qed
  with False show ?thesis by simp
qed

subsection \<open>Fields past the header\<close>






















end
